theory Spec2Isabelle
  imports Complex_Main "HOL-Library.Log_Nat"
begin

section \<open>Numbers\<close>

text \<open>
  Every quantity of the program is a JavaScript number, a binary64 floating-point number.
  Instants (milliseconds since the epoch, what \<open>Date.prototype.getTime\<close> and
  \<open>Date.now\<close> return) are integers that binary64 holds exactly, and are modelled as
  \<open>int\<close>, with their sums and differences. The quotients and products of the percentage
  are not exact in binary64: each is rounded to the nearest binary64 number, a tie going
  to the even significand. The quotients of the remaining time, whose divisors are
  constants, are left exact.
\<close>

text \<open>The binade of a number that is not zero: \<open>2\<^sup>e \<le> \<bar>x\<bar> < 2\<^sup>e\<^sup>+\<^sup>1\<close>.\<close>

definition binade :: "real \<Rightarrow> int" where
  "binade x =
     (if 1 \<le> \<bar>x\<bar> then bitlen \<lfloor>\<bar>x\<bar>\<rfloor> - 1 else - bitlen (\<lceil>1 / \<bar>x\<bar>\<rceil> - 1))"

definition roundTiesToEven :: "real \<Rightarrow> int" where
  "roundTiesToEven y =
     (let n = \<lfloor>y\<rfloor>; d = y - of_int n
      in if d < 1 / 2 then n
         else if 1 / 2 < d then n + 1
         else if even n then n
         else n + 1)"

text \<open>The unit in the last place of a significand of 53 bits.\<close>

definition ulp :: "real \<Rightarrow> real" where
  "ulp x = 2 powi (binade x - 52)"

text \<open>
  Rounding to binary64. The range of the exponent is left out: it is not reached by a
  quotient of two instants of \<open>Date\<close> objects or by what the program computes from it.
\<close>

definition binary64 :: "real \<Rightarrow> real" where
  "binary64 x = (if x = 0 then 0 else of_int (roundTiesToEven (x / ulp x)) * ulp x)"

text \<open>
  Division and multiplication. A division whose divisor is zero has no finite result
  (\<open>NaN\<close> or an infinity): it is \<open>None\<close>.
\<close>

definition js_divide :: "real \<Rightarrow> real \<Rightarrow> real option" where
  "js_divide a b = (if b = 0 then None else Some (binary64 (a / b)))"

definition js_times :: "real \<Rightarrow> real \<Rightarrow> real" where
  "js_times a b = binary64 (a * b)"

text \<open>\<open>Math.round\<close>: the nearest integer, a tie going up.\<close>

definition Math_round :: "real \<Rightarrow> int" where
  "Math_round x = \<lfloor>x + 1 / 2\<rfloor>"

definition Math_ceil :: "real \<Rightarrow> int" where
  "Math_ceil x = \<lceil>x\<rceil>"

section \<open>The Date object\<close>

text \<open>
  The time arithmetic of the language standard (ECMA-262, Date objects), on integers:
  day number and time within the day, the Gregorian year, month and day of the month of a
  time value, and the inverse \<open>MakeDay\<close>.
\<close>

definition msPerDay :: int where
  "msPerDay = 86400000"

definition Day :: "int \<Rightarrow> int" where
  "Day t = t div msPerDay"

definition TimeWithinDay :: "int \<Rightarrow> int" where
  "TimeWithinDay t = t mod msPerDay"

definition DaysInYear :: "int \<Rightarrow> int" where
  "DaysInYear y =
     (if y mod 4 \<noteq> 0 then 365
      else if y mod 100 \<noteq> 0 then 366
      else if y mod 400 \<noteq> 0 then 365
      else 366)"

definition DayFromYear :: "int \<Rightarrow> int" where
  "DayFromYear y =
     365 * (y - 1970) + (y - 1969) div 4 - (y - 1901) div 100 + (y - 1601) div 400"

text \<open>
  The standard specifies the year of a day as the largest \<open>y\<close> with
  \<open>DayFromYear y \<le> d\<close>. It is computed from the mean length of a year
  (146097 days in 400 years), an estimate that is off by at most one.
\<close>

definition YearFromDay :: "int \<Rightarrow> int" where
  "YearFromDay d =
     (let y = 1970 + (400 * d) div 146097
      in if DayFromYear (y + 1) \<le> d then y + 1
         else if d < DayFromYear y then y - 1
         else y)"

definition YearFromTime :: "int \<Rightarrow> int" where
  "YearFromTime t = YearFromDay (Day t)"

definition InLeapYear :: "int \<Rightarrow> int" where
  "InLeapYear t = (if DaysInYear (YearFromTime t) = 366 then 1 else 0)"

definition DayWithinYear :: "int \<Rightarrow> int" where
  "DayWithinYear t = Day t - DayFromYear (YearFromTime t)"

definition MonthFromTime :: "int \<Rightarrow> int" where
  "MonthFromTime t =
     (let d = DayWithinYear t; l = InLeapYear t
      in if d < 31 then 0
         else if d < 59 + l then 1
         else if d < 90 + l then 2
         else if d < 120 + l then 3
         else if d < 151 + l then 4
         else if d < 181 + l then 5
         else if d < 212 + l then 6
         else if d < 243 + l then 7
         else if d < 273 + l then 8
         else if d < 304 + l then 9
         else if d < 334 + l then 10
         else 11)"

definition DateFromTime :: "int \<Rightarrow> int" where
  "DateFromTime t =
     (let d = DayWithinYear t; l = InLeapYear t; m = MonthFromTime t
      in if m = 0 then d + 1
         else if m = 1 then d - 30
         else if m = 2 then d - 58 - l
         else if m = 3 then d - 89 - l
         else if m = 4 then d - 119 - l
         else if m = 5 then d - 150 - l
         else if m = 6 then d - 180 - l
         else if m = 7 then d - 211 - l
         else if m = 8 then d - 242 - l
         else if m = 9 then d - 272 - l
         else if m = 10 then d - 303 - l
         else d - 333 - l)"

text \<open>The day within the year on which month \<open>m\<close> (0 to 11) starts.\<close>

definition DaysBeforeMonth :: "int \<Rightarrow> int \<Rightarrow> int" where
  "DaysBeforeMonth m l =
     (if m = 0 then 0
      else if m = 1 then 31
      else if m = 2 then 59 + l
      else if m = 3 then 90 + l
      else if m = 4 then 120 + l
      else if m = 5 then 151 + l
      else if m = 6 then 181 + l
      else if m = 7 then 212 + l
      else if m = 8 then 243 + l
      else if m = 9 then 273 + l
      else if m = 10 then 304 + l
      else 334 + l)"

text \<open>
  \<open>MakeDay\<close>: the day number of the first of the month \<open>mn\<close> of the year \<open>ym\<close>,
  plus the day of the month less one. A month outside 0 to 11 carries into the year.
\<close>

definition MakeDay :: "int \<Rightarrow> int \<Rightarrow> int \<Rightarrow> int" where
  "MakeDay year month date =
     (let ym = year + month div 12; mn = month mod 12
      in DayFromYear ym
         + DaysBeforeMonth mn (if DaysInYear ym = 366 then 1 else 0)
         + date - 1)"

definition MakeTime :: "int \<Rightarrow> int \<Rightarrow> int \<Rightarrow> int \<Rightarrow> int" where
  "MakeTime hour minute sec ms = hour * 3600000 + minute * 60000 + sec * 1000 + ms"

definition MakeDate :: "int \<Rightarrow> int \<Rightarrow> int" where
  "MakeDate day time = day * msPerDay + time"

text \<open>
  The local time zone belongs to the host, not to the program: it is a parameter, the
  standard's \<open>LocalTZA (t, isUTC)\<close>, the offset of local time from UTC in milliseconds
  at the UTC instant \<open>t\<close> (\<open>isUTC\<close>) or at the local time value \<open>t\<close> (otherwise).
\<close>

type_synonym zone = "int \<Rightarrow> bool \<Rightarrow> int"

definition LocalTime :: "zone \<Rightarrow> int \<Rightarrow> int" where
  "LocalTime tz t = t + tz t True"

definition UTC :: "zone \<Rightarrow> int \<Rightarrow> int" where
  "UTC tz t = t - tz t False"

text \<open>A zone with one offset all year (no daylight saving time).\<close>

definition fixedZone :: "int \<Rightarrow> zone" where
  "fixedZone off = (\<lambda>t isUTC. off)"

text \<open>Offsets of a time zone are less than a day in size.\<close>

definition zoneBounded :: "zone \<Rightarrow> bool" where
  "zoneBounded tz = (\<forall>t b. - msPerDay < tz t b \<and> tz t b < msPerDay)"

text \<open>
  North American Eastern Time around 2027, as an example of a zone with daylight saving
  time: four hours behind UTC from 14 March 2027, 07:00 UTC, to 7 November 2027, 06:00
  UTC, and five hours behind otherwise.
\<close>

definition easternZone :: zone where
  "easternZone =
     (\<lambda>t isUTC.
        if isUTC then (if 1805007600000 \<le> t \<and> t < 1825567200000 then - 14400000 else - 18000000)
        else (if 1804993200000 \<le> t \<and> t < 1825552800000 then - 14400000 else - 18000000))"

text \<open>
  Both the \<open>Date\<close> constructor with components and \<open>Date.UTC\<close> read a year from 0 to 99
  as 1900 plus that year.
\<close>

definition fullYear :: "int \<Rightarrow> int" where
  "fullYear y = (if 0 \<le> y \<and> y \<le> 99 then 1900 + y else y)"

text \<open>\<open>new Date(year, month, date, hours, minutes)\<close>: components in local time.\<close>

definition new_Date :: "zone \<Rightarrow> int \<Rightarrow> int \<Rightarrow> int \<Rightarrow> int \<Rightarrow> int \<Rightarrow> int" where
  "new_Date tz year month date hours minutes =
     UTC tz (MakeDate (MakeDay (fullYear year) month date) (MakeTime hours minutes 0 0))"

text \<open>\<open>Date.UTC(year, month, date)\<close>.\<close>

definition Date_UTC :: "int \<Rightarrow> int \<Rightarrow> int \<Rightarrow> int" where
  "Date_UTC year month date = MakeDate (MakeDay (fullYear year) month date) 0"

definition getFullYear :: "zone \<Rightarrow> int \<Rightarrow> int" where
  "getFullYear tz t = YearFromTime (LocalTime tz t)"

definition getMonth :: "zone \<Rightarrow> int \<Rightarrow> int" where
  "getMonth tz t = MonthFromTime (LocalTime tz t)"

definition getDate :: "zone \<Rightarrow> int \<Rightarrow> int" where
  "getDate tz t = DateFromTime (LocalTime tz t)"

section \<open>The progress calculator of the share page\<close>

text \<open>
  The share page reads the clock inside each function (\<open>Date.now ()\<close>,
  \<open>new Date ()\<close>). The clock is the parameter \<open>now\<close>; one render uses one reading.
\<close>

datatype Unit = Days | Hours | Seconds

definition MS_PER_DAY :: int where
  "MS_PER_DAY = 24 * 60 * 60 * 1000"

definition calculateDateDiffInDays :: "zone \<Rightarrow> int \<Rightarrow> int \<Rightarrow> int" where
  "calculateDateDiffInDays tz end now =
     (let endUtc = Date_UTC (getFullYear tz end) (getMonth tz end) (getDate tz end);
          nowUtc = Date_UTC (getFullYear tz now) (getMonth tz now) (getDate tz now)
      in max 0 (Math_round (of_int (endUtc - nowUtc) / of_int MS_PER_DAY)))"

definition calculateTimeLeft :: "zone \<Rightarrow> int \<Rightarrow> int \<Rightarrow> Unit \<Rightarrow> int" where
  "calculateTimeLeft tz now end unit =
     (let timeLeftMs = max 0 (end - now)
      in case unit of
           Days \<Rightarrow> calculateDateDiffInDays tz end now
         | Hours \<Rightarrow> Math_ceil (of_int timeLeftMs / of_int (1000 * 60 * 60))
         | Seconds \<Rightarrow> Math_ceil (of_int timeLeftMs / 1000))"

definition calculateProgress :: "int \<Rightarrow> int \<Rightarrow> int \<Rightarrow> real option" where
  "calculateProgress now start end =
     (let startMs = start;
          endMs = end;
          total = endMs - startMs;
          elapsed = min (max (now - startMs) 0) total;
          ratio = (if total = 0 then Some 0 else js_divide (of_int elapsed) (of_int total))
      in map_option (\<lambda>r. binary64 (of_int (Math_round (js_times r 1000)) / 10)) ratio)"

section \<open>The range registry of the share page\<close>

record range =
  range_start :: int
  range_end :: int

record item =
  item_title :: string
  item_accent :: string
  item_start :: "int option"
  item_end :: "int option"
  item_getRange :: "(int \<Rightarrow> range) option"

definition semester_getRange :: "zone \<Rightarrow> int \<Rightarrow> range" where
  "semester_getRange tz now =
     (let cutoff = new_Date tz 2026 1 2 11 45
      in if now \<ge> cutoff
         then \<lparr>range_start = new_Date tz 2026 1 2 11 45, range_end = new_Date tz 2026 5 24 0 0\<rparr>
         else \<lparr>range_start = new_Date tz 2025 8 2 0 0, range_end = new_Date tz 2026 1 2 11 45\<rparr>)"

definition semester :: "zone \<Rightarrow> item" where
  "semester tz =
     \<lparr>item_title = ''Semester'', item_accent = ''var(--accent-lilac)'',
      item_start = None, item_end = None,
      item_getRange = Some (semester_getRange tz)\<rparr>"

definition year :: "zone \<Rightarrow> item" where
  "year tz =
     \<lparr>item_title = ''School year'', item_accent = ''var(--accent-sky)'',
      item_start = Some (new_Date tz 2025 8 2 0 0), item_end = Some (new_Date tz 2026 5 24 0 0),
      item_getRange = None\<rparr>"

definition school :: "zone \<Rightarrow> item" where
  "school tz =
     \<lparr>item_title = ''High school'', item_accent = ''var(--accent-mint)'',
      item_start = Some (new_Date tz 2023 8 5 0 0), item_end = Some (new_Date tz 2027 5 25 0 0),
      item_getRange = None\<rparr>"

text \<open>
  \<open>items\<close> is an object literal and \<open>items[target]\<close> a property lookup with a
  string from the request path. The lookup finds the three own properties, and, for any
  other key, what the object inherits from \<open>Object.prototype\<close>: functions and
  objects, none of which has a \<open>getRange\<close>, \<open>start\<close>, \<open>end\<close> or \<open>title\<close>.
  Any other key gives \<open>undefined\<close>, which is \<open>None\<close>.
\<close>

datatype entry = Registered item | Inherited

definition Object_prototype_keys :: "string list" where
  "Object_prototype_keys =
     [''constructor'', ''__defineGetter__'', ''__defineSetter__'', ''hasOwnProperty'',
      ''__lookupGetter__'', ''__lookupSetter__'', ''isPrototypeOf'', ''propertyIsEnumerable'',
      ''toString'', ''valueOf'', ''__proto__'', ''toLocaleString'']"

definition items :: "zone \<Rightarrow> string \<Rightarrow> entry option" where
  "items tz target =
     (if target = ''semester'' then Some (Registered (semester tz))
      else if target = ''year'' then Some (Registered (year tz))
      else if target = ''school'' then Some (Registered (school tz))
      else if target \<in> set Object_prototype_keys then Some Inherited
      else None)"

text \<open>The result of \<open>resolveRange\<close>: a bound that is \<open>undefined\<close> is \<open>None\<close>.\<close>

fun resolveRange :: "int \<Rightarrow> entry \<Rightarrow> int option \<times> int option" where
  "resolveRange now (Registered it) =
     (case item_getRange it of
        Some getRange \<Rightarrow> (let r = getRange now in (Some (range_start r), Some (range_end r)))
      | None \<Rightarrow> (item_start it, item_end it))"
| "resolveRange now Inherited = (None, None)"

section \<open>The two entry points of the share page\<close>

text \<open>The unit of the request path, when it is one of the three the page knows.\<close>

definition unitOf :: "string \<Rightarrow> Unit option" where
  "unitOf unit =
     (if unit = ''days'' then Some Days
      else if unit = ''hours'' then Some Hours
      else if unit = ''seconds'' then Some Seconds
      else None)"

text \<open>
  \<open>NotFound\<close> is what \<open>notFound ()\<close> throws, and \<open>TypeError\<close> what a method call on
  \<open>undefined\<close> throws: \<open>end.getTime ()\<close> in \<open>calculateTimeLeft\<close> and
  \<open>start.getTime ()\<close> in \<open>calculateProgress\<close>, when the range has no such bound.
\<close>

datatype failure = NotFound | TypeError

fun decimal :: "nat \<Rightarrow> string" where
  "decimal n =
     (if n < 10 then [char_of (48 + n)]
      else decimal (n div 10) @ [char_of (48 + n mod 10)])"

text \<open>An integer in a template literal.\<close>

definition Number_toString :: "int \<Rightarrow> string" where
  "Number_toString i = (if i < 0 then CHR ''-'' # decimal (nat (- i)) else decimal (nat i))"

text \<open>The title of an entry in a template literal.\<close>

definition titleOf :: "entry \<Rightarrow> string" where
  "titleOf entry = (case entry of Registered it \<Rightarrow> item_title it | Inherited \<Rightarrow> ''undefined'')"

record OpenGraph =
  og_title :: string
  og_description :: string
  og_type :: string

record Twitter =
  tw_card :: string
  tw_title :: string
  tw_description :: string

record Metadata =
  md_title :: string
  md_description :: "string option"
  md_openGraph :: "OpenGraph option"
  md_twitter :: "Twitter option"

definition notFoundMetadata :: Metadata where
  "notFoundMetadata =
     \<lparr>md_title = ''Not Found'', md_description = None, md_openGraph = None, md_twitter = None\<rparr>"

definition generateMetadata :: "zone \<Rightarrow> int \<Rightarrow> string \<Rightarrow> string \<Rightarrow> failure + Metadata" where
  "generateMetadata tz now target unit =
     (case (items tz target, unitOf unit) of
        (Some entry, Some u) \<Rightarrow>
          (case snd (resolveRange now entry) of
             None \<Rightarrow> Inl TypeError
           | Some end \<Rightarrow>
               (let timeLeft = calculateTimeLeft tz now end u;
                    description =
                      Number_toString timeLeft @ '' '' @ unit @ '' left until '' @ titleOf entry
                        @ '' ends''
                in Inr \<lparr>md_title =
                          titleOf entry @ '' - '' @ Number_toString timeLeft @ '' '' @ unit
                            @ '' left'',
                        md_description = Some description,
                        md_openGraph =
                          Some \<lparr>og_title = titleOf entry, og_description = description,
                                og_type = ''website''\<rparr>,
                        md_twitter =
                          Some \<lparr>tw_card = ''summary_large_image'', tw_title = titleOf entry,
                                tw_description = description\<rparr>\<rparr>))
      | _ \<Rightarrow> Inr notFoundMetadata)"

text \<open>What the page shows, without its markup and the formatting of dates and numbers.\<close>

record SharePageView =
  view_title :: string
  view_percent :: "real option"
  view_start :: int
  view_end :: int
  view_timeLeft :: int
  view_unit :: string

definition SharePage :: "zone \<Rightarrow> int \<Rightarrow> string \<Rightarrow> string \<Rightarrow> failure + SharePageView" where
  "SharePage tz now target unit =
     (case (items tz target, unitOf unit) of
        (Some entry, Some u) \<Rightarrow>
          (case resolveRange now entry of
             (_, None) \<Rightarrow> Inl TypeError
           | (None, Some end) \<Rightarrow> Inl TypeError
           | (Some start, Some end) \<Rightarrow>
               Inr \<lparr>view_title = titleOf entry,
                    view_percent = calculateProgress now start end,
                    view_start = start,
                    view_end = end,
                    view_timeLeft = calculateTimeLeft tz now end u,
                    view_unit = unit\<rparr>)
      | _ \<Rightarrow> Inl NotFound)"

section \<open>The dashboard\<close>

record ProgressItem =
  pi_id :: string
  pi_title :: string
  pi_start :: int
  pi_end :: int
  pi_accent :: string

definition items_dashboard :: "zone \<Rightarrow> ProgressItem list" where
  "items_dashboard tz =
     [\<lparr>pi_id = ''semester'', pi_title = ''Semester progress'',
       pi_start = new_Date tz 2025 8 2 0 0, pi_end = new_Date tz 2026 1 2 0 0,
       pi_accent = ''var(--accent-lilac)''\<rparr>,
      \<lparr>pi_id = ''school-year'', pi_title = ''School year progress'',
       pi_start = new_Date tz 2025 8 2 0 0, pi_end = new_Date tz 2025 5 24 0 0,
       pi_accent = ''var(--accent-sky)''\<rparr>,
      \<lparr>pi_id = ''high-school'', pi_title = ''High school progress'',
       pi_start = new_Date tz 2023 8 5 0 0, pi_end = new_Date tz 2027 5 25 0 0,
       pi_accent = ''var(--accent-mint)''\<rparr>]"

definition clamp :: "int \<Rightarrow> int \<Rightarrow> int \<Rightarrow> int" where
  "clamp v lo hi = min (max v lo) hi"

definition normalizeRange :: "int \<Rightarrow> int \<Rightarrow> range" where
  "normalizeRange start end =
     (if end \<le> start then \<lparr>range_start = end, range_end = start\<rparr>
      else \<lparr>range_start = start, range_end = end\<rparr>)"

text \<open>The card of one entry: the dates shown are the entry's own, not the normalized ones.\<close>

record Card =
  card_title :: string
  card_percent :: "real option"
  card_start :: int
  card_end :: int
  card_daysLeft :: int

definition ProgressBar :: "ProgressItem \<Rightarrow> int \<Rightarrow> Card" where
  "ProgressBar item now =
     (let startMs = pi_start item;
          endMs = pi_end item;
          normalized = normalizeRange startMs endMs;
          total = range_end normalized - range_start normalized;
          elapsed = clamp (now - range_start normalized) 0 total;
          ratio = (if total = 0 then Some 0 else js_divide (of_int elapsed) (of_int total));
          percent =
            map_option (\<lambda>r. binary64 (of_int (Math_round (js_times r 1000)) / 10)) ratio;
          daysLeft =
            max 0 (Math_ceil (of_int (range_end normalized - now) / of_int (1000 * 60 * 60 * 24)))
      in \<lparr>card_title = pi_title item, card_percent = percent, card_start = pi_start item,
          card_end = pi_end item, card_daysLeft = daysLeft\<rparr>)"

section \<open>The words of the specification\<close>

text \<open>
  The percentage as the specification words it: the ratio of elapsed to total time with
  \<open>now\<close> clamped into the range, rounded to one decimal place (a tie going up).
\<close>

definition clampedRatio :: "int \<Rightarrow> int \<Rightarrow> int \<Rightarrow> real" where
  "clampedRatio now start end =
     (if end = start then 0
      else of_int (min (max now start) end - start) / of_int (end - start))"

definition roundOneDecimal :: "real \<Rightarrow> real" where
  "roundOneDecimal x = of_int \<lfloor>x * 10 + 1 / 2\<rfloor> / 10"

definition percentComplete :: "int \<Rightarrow> int \<Rightarrow> int \<Rightarrow> real" where
  "percentComplete now start end = roundOneDecimal (100 * clampedRatio now start end)"

text \<open>
  The last line of \<open>calculateProgress\<close>, and of the percentage in \<open>ProgressBar\<close>, as a
  function of the ratio that the line before it has computed.
\<close>

definition roundedPercent :: "real \<Rightarrow> real" where
  "roundedPercent q = binary64 (of_int (Math_round (js_times q 1000)) / 10)"

text \<open>
  A number is near a midpoint when it is closer than \<open>2\<^sup>-\<^sup>4\<^sup>2\<close> to the middle between
  two consecutive integers, where \<open>Math.round\<close> changes its value.
\<close>

definition nearMidpoint :: "real \<Rightarrow> bool" where
  "nearMidpoint y =
     (let f = y + 1 / 2 - of_int \<lfloor>y + 1 / 2\<rfloor> in f < 1 / 2 ^ 42 \<or> 1 - 1 / 2 ^ 42 < f)"

text \<open>The three instants of the semester, by the names the specification gives them.\<close>

definition termStart :: "zone \<Rightarrow> int" where
  "termStart tz = new_Date tz 2025 8 2 0 0"

definition cutoff :: "zone \<Rightarrow> int" where
  "cutoff tz = new_Date tz 2026 1 2 11 45"

definition termEnd :: "zone \<Rightarrow> int" where
  "termEnd tz = new_Date tz 2026 5 24 0 0"

text \<open>
  The date-only instant of a date: \<open>Date.UTC\<close> of its local year, month and day, as
  \<open>calculateDateDiffInDays\<close> computes it for \<open>end\<close> and for \<open>now\<close>.
\<close>

definition dateOnly :: "zone \<Rightarrow> int \<Rightarrow> int" where
  "dateOnly tz t = Date_UTC (getFullYear tz t) (getMonth tz t) (getDate tz t)"

text \<open>
  A time value whose year is read in full: its day lies before the year 0, or in the year
  100 or later, so that \<open>Date.UTC\<close> does not take its year for one of two digits.
\<close>

definition yearReadInFull :: "int \<Rightarrow> bool" where
  "yearReadInFull t = (Day t < DayFromYear 0 \<or> DayFromYear 100 \<le> Day t)"

text \<open>
  The share page counts local calendar days on its host; the dashboard counts whole days
  of milliseconds up to a local midnight of the browser. \<open>midnight\<close> is that midnight as
  a local time value, and \<open>delta\<close> the offset of the host at \<open>now\<close> less the offset of
  the browser at that midnight. The two counts can be compared when the host's local time
  of day at \<open>now\<close> is at least \<open>delta\<close> and less than a day plus \<open>delta\<close>: with
  the same offset on both sides, at every instant.
\<close>

definition daysComparable :: "zone \<Rightarrow> zone \<Rightarrow> int \<Rightarrow> int \<Rightarrow> bool" where
  "daysComparable tzS tzD now midnight =
     (let delta = tzS now True - tzD midnight False;
          timeOfDay = TimeWithinDay (LocalTime tzS now)
      in delta \<le> timeOfDay \<and> timeOfDay < msPerDay + delta)"

section \<open>Calendar lemmas\<close>

lemma div_step:
  fixes a n :: int
  assumes "0 < n"
  shows "(a + 1) div n = a div n + (if (a + 1) mod n = 0 then 1 else 0)"
proof (cases "a mod n = n - 1")
  case True
  have e: "a + 1 = n * (a div n + 1) + 0"
    using True mult_div_mod_eq [of n a] by (simp add: distrib_left)
  have "(a + 1) div n = a div n + 1"
    using int_div_pos_eq [OF e] assms by simp
  moreover have "(a + 1) mod n = 0"
    using int_mod_pos_eq [OF e] assms by simp
  ultimately show ?thesis by simp
next
  case False
  have r: "0 \<le> a mod n" "a mod n < n"
    using assms by simp_all
  have e: "a + 1 = n * (a div n) + (a mod n + 1)"
    using mult_div_mod_eq [of n a] by simp
  have b: "0 \<le> a mod n + 1" "a mod n + 1 < n"
    using r False by linarith+
  have "(a + 1) div n = a div n"
    using e b by (rule int_div_pos_eq)
  moreover have "(a + 1) mod n = a mod n + 1"
    using e b by (rule int_mod_pos_eq)
  ultimately show ?thesis using r by simp
qed

lemma mod_shift: "n dvd k \<Longrightarrow> (y - k) mod n = y mod n" for y k n :: int
  using mod_diff_eq [of y n k] by (simp add: dvd_eq_mod_eq_0)

lemma DaysInYear_bits:
  "DaysInYear y = 365 + (if y mod 4 = 0 then 1 else 0) - (if y mod 100 = 0 then 1 else 0)
     + (if y mod 400 = 0 then 1 else 0)"
proof -
  have d: "y mod 100 = 0 \<Longrightarrow> y mod 4 = 0"
    using dvd_trans [of 4 100 y] by (simp add: mod_eq_0_iff_dvd)
  have e: "y mod 400 = 0 \<Longrightarrow> y mod 100 = 0"
    using dvd_trans [of 100 400 y] by (simp add: mod_eq_0_iff_dvd)
  show ?thesis
  proof (cases "y mod 400 = 0")
    case True
    then show ?thesis using d e by (simp add: DaysInYear_def)
  next
    case n400: False
    show ?thesis
    proof (cases "y mod 100 = 0")
      case True
      then show ?thesis using d n400 by (simp add: DaysInYear_def)
    next
      case False
      then show ?thesis using n400 by (simp add: DaysInYear_def)
    qed
  qed
qed

lemma DayFromYear_Suc: "DayFromYear (y + 1) = DayFromYear y + DaysInYear y"
proof -
  have a: "(y + 1 - 1969) div 4 = (y - 1969) div 4 + (if y mod 4 = 0 then 1 else 0)"
    using div_step [of 4 "y - 1969"] mod_shift [of 4 1968 y] by (simp add: algebra_simps)
  have b: "(y + 1 - 1901) div 100 = (y - 1901) div 100 + (if y mod 100 = 0 then 1 else 0)"
    using div_step [of 100 "y - 1901"] mod_shift [of 100 1900 y] by (simp add: algebra_simps)
  have c: "(y + 1 - 1601) div 400 = (y - 1601) div 400 + (if y mod 400 = 0 then 1 else 0)"
    using div_step [of 400 "y - 1601"] mod_shift [of 400 1600 y] by (simp add: algebra_simps)
  show ?thesis
    unfolding DayFromYear_def DaysInYear_bits a b c by (simp only: algebra_simps)
qed

lemma div_bounds: "0 < n \<Longrightarrow> n * (x div n) \<le> x \<and> x < n * (x div n) + n" for x n :: int
  using mult_div_mod_eq [of n x] pos_mod_bound [of n x] pos_mod_sign [of n x] by linarith

lemma YearFromDay_estimate:
  fixes d :: int
  defines "y \<equiv> 1970 + (400 * d) div 146097"
  shows "DayFromYear (y - 1) \<le> d" and "d < DayFromYear (y + 2)"
proof -
  define k where "k = (400 * d) div 146097"
  define q4 q100 q400 where "q4 = k div 4" and "q100 = (k + 68) div 100"
    and "q400 = (k + 368) div 400"
  define p4 p100 p400 where "p4 = (k + 3) div 4" and "p100 = (k + 71) div 100"
    and "p400 = (k + 371) div 400"
  have k: "146097 * k \<le> 400 * d" "400 * d < 146097 * k + 146097"
    using div_bounds [of 146097 "400 * d"] by (simp_all add: k_def)
  have y: "y = 1970 + k" by (simp add: y_def k_def)
  have a: "4 * q4 \<le> k" "k < 4 * q4 + 4"
    using div_bounds [of 4 k] by (simp_all add: q4_def)
  have b: "100 * q100 \<le> k + 68" "k + 68 < 100 * q100 + 100"
    using div_bounds [of 100 "k + 68"] by (simp_all add: q100_def)
  have c: "400 * q400 \<le> k + 368" "k + 368 < 400 * q400 + 400"
    using div_bounds [of 400 "k + 368"] by (simp_all add: q400_def)
  have l: "DayFromYear (y - 1) = 365 * k - 365 + q4 - q100 + q400"
    by (simp add: DayFromYear_def y add.commute q4_def q100_def q400_def)
  show "DayFromYear (y - 1) \<le> d"
    unfolding l using k a b c by linarith
  have a': "4 * p4 \<le> k + 3" "k + 3 < 4 * p4 + 4"
    using div_bounds [of 4 "k + 3"] by (simp_all add: p4_def)
  have b': "100 * p100 \<le> k + 71" "k + 71 < 100 * p100 + 100"
    using div_bounds [of 100 "k + 71"] by (simp_all add: p100_def)
  have c': "400 * p400 \<le> k + 371" "k + 371 < 400 * p400 + 400"
    using div_bounds [of 400 "k + 371"] by (simp_all add: p400_def)
  have u: "DayFromYear (y + 2) = 365 * k + 730 + p4 - p100 + p400"
    by (simp add: DayFromYear_def y add.commute p4_def p100_def p400_def)
  show "d < DayFromYear (y + 2)"
    unfolding u using k a' b' c' by linarith
qed

lemma YearFromDay_bounds:
  "DayFromYear (YearFromDay d) \<le> d \<and> d < DayFromYear (YearFromDay d + 1)"
proof -
  define y where "y = 1970 + (400 * d) div 146097"
  have lo: "DayFromYear (y - 1) \<le> d" and hi: "d < DayFromYear (y + 2)"
    using YearFromDay_estimate [of d] by (simp_all add: y_def)
  have s1: "DayFromYear (y + 2) = DayFromYear (y + 1) + DaysInYear (y + 1)"
    using DayFromYear_Suc [of "y + 1"] by (simp add: add.assoc)
  have s0: "DayFromYear y = DayFromYear (y - 1) + DaysInYear (y - 1)"
    using DayFromYear_Suc [of "y - 1"] by simp
  have yd: "YearFromDay d =
      (if DayFromYear (y + 1) \<le> d then y + 1 else if d < DayFromYear y then y - 1 else y)"
    by (simp add: YearFromDay_def y_def Let_def)
  show ?thesis
  proof (cases "DayFromYear (y + 1) \<le> d")
    case True
    then show ?thesis using hi by (simp add: yd add.assoc)
  next
    case False
    then show ?thesis using lo by (simp add: yd)
  qed
qed

lemma DaysInYear_cases: "DaysInYear y = 365 \<or> DaysInYear y = 366"
  by (simp add: DaysInYear_def)

lemma month_table:
  fixes d l :: int
  assumes "0 \<le> d" "d < 365 + l" "l = 0 \<or> l = 1"
  defines "m \<equiv>
     (if d < 31 then 0
      else if d < 59 + l then 1
      else if d < 90 + l then 2
      else if d < 120 + l then 3
      else if d < 151 + l then 4
      else if d < 181 + l then 5
      else if d < 212 + l then 6
      else if d < 243 + l then 7
      else if d < 273 + l then 8
      else if d < 304 + l then 9
      else if d < 334 + l then 10
      else (11::int))"
  shows "m div 12 = 0" and "m mod 12 = m"
    and "DaysBeforeMonth m l +
      (if m = 0 then d + 1
       else if m = 1 then d - 30
       else if m = 2 then d - 58 - l
       else if m = 3 then d - 89 - l
       else if m = 4 then d - 119 - l
       else if m = 5 then d - 150 - l
       else if m = 6 then d - 180 - l
       else if m = 7 then d - 211 - l
       else if m = 8 then d - 242 - l
       else if m = 9 then d - 272 - l
       else if m = 10 then d - 303 - l
       else d - 333 - l) - 1 = d"
  by (simp_all add: m_def DaysBeforeMonth_def)

lemma MakeDay_of_time:
  "MakeDay (YearFromTime t) (MonthFromTime t) (DateFromTime t) = Day t"
proof -
  define y where "y = YearFromTime t"
  define d where "d = DayWithinYear t"
  define l where "l = InLeapYear t"
  have b: "DayFromYear y \<le> Day t" "Day t < DayFromYear y + DaysInYear y"
    using YearFromDay_bounds [of "Day t"] DayFromYear_Suc [of y]
    by (simp_all add: y_def YearFromTime_def)
  have d0: "0 \<le> d" and dt: "Day t = DayFromYear y + d"
    using b by (simp_all add: d_def DayWithinYear_def y_def)
  have l: "l = (if DaysInYear y = 366 then 1 else 0)"
    by (simp add: l_def InLeapYear_def y_def)
  have l01: "l = 0 \<or> l = 1"
    by (simp add: l)
  have d1: "d < 365 + l"
    using b(2) DaysInYear_cases [of y] dt by (auto simp: l)
  note tab = month_table [OF d0 d1 l01]
  show ?thesis
    unfolding MakeDay_def DateFromTime_def MonthFromTime_def Let_def
    unfolding y_def [symmetric] d_def [symmetric] l_def [symmetric]
    unfolding tab(1) tab(2) using tab(3) l dt by simp
qed

section \<open>Lemmas on binary64\<close>

lemma bitlen_pos_bounds:
  assumes "0 < m"
  shows "(2::real) powi (bitlen m - 1) \<le> of_int m" and "of_int m < (2::real) powi (bitlen m)"
    and "1 \<le> bitlen m"
proof -
  have b: "1 \<le> bitlen m"
    using assms by (simp add: bitlen_alt_def)
  then show "1 \<le> bitlen m" .
  have i: "2 ^ nat (bitlen m - 1) \<le> m" "m < 2 ^ nat (bitlen m)"
    using bitlen_bounds [OF assms] by simp_all
  have "(2::real) powi (bitlen m - 1) = 2 ^ nat (bitlen m - 1)"
    using b by (simp add: power_int_def)
  also have "\<dots> = of_int (2 ^ nat (bitlen m - 1))" by simp
  also have "\<dots> \<le> of_int m" using i(1) by (simp only: of_int_le_iff)
  finally show "(2::real) powi (bitlen m - 1) \<le> of_int m" .
  have "(of_int m :: real) < of_int (2 ^ nat (bitlen m))"
    using i(2) by (simp only: of_int_less_iff)
  also have "\<dots> = 2 ^ nat (bitlen m)" by simp
  also have "\<dots> = (2::real) powi (bitlen m)"
    using b by (simp add: power_int_def)
  finally show "of_int m < (2::real) powi (bitlen m)" .
qed

lemma binade_bounds:
  assumes "x \<noteq> 0"
  shows "2 powi binade x \<le> \<bar>x\<bar>" and "\<bar>x\<bar> < 2 powi (binade x + 1)"
proof -
  show "2 powi binade x \<le> \<bar>x\<bar>"
  proof (cases "1 \<le> \<bar>x\<bar>")
    case True
    then have p: "0 < \<lfloor>\<bar>x\<bar>\<rfloor>" by linarith
    have "(2::real) powi binade x = 2 powi (bitlen \<lfloor>\<bar>x\<bar>\<rfloor> - 1)"
      using True by (simp add: binade_def)
    also have "\<dots> \<le> of_int \<lfloor>\<bar>x\<bar>\<rfloor>"
      by (rule bitlen_pos_bounds(1) [OF p])
    also have "\<dots> \<le> \<bar>x\<bar>" by linarith
    finally show ?thesis .
  next
    case False
    define y where "y = 1 / \<bar>x\<bar>"
    have x: "0 < \<bar>x\<bar>" "\<bar>x\<bar> < 1" using assms False by simp_all
    then have y1: "1 < y" by (simp add: y_def)
    define m where "m = \<lceil>y\<rceil> - 1"
    have m: "0 < m" using y1 unfolding m_def by linarith
    have "y \<le> of_int m + 1" unfolding m_def by simp
    also have "of_int m + 1 \<le> (2::real) powi (bitlen m)"
    proof -
      have "(of_int m :: real) < of_int (2 ^ nat (bitlen m))"
        using bitlen_bounds [OF m] by (simp only: of_int_less_iff)
      then have "m + 1 \<le> 2 ^ nat (bitlen m)" by simp
      then have "(of_int (m + 1) :: real) \<le> of_int (2 ^ nat (bitlen m))"
        by (simp only: of_int_le_iff)
      then show ?thesis
        using bitlen_pos_bounds(3) [OF m] by (simp add: power_int_def)
    qed
    finally have "y \<le> (2::real) powi (bitlen m)" .
    then have "1 / ((2::real) powi (bitlen m)) \<le> 1 / y"
      using y1 by (intro divide_left_mono) simp_all
    then have "2 powi (- bitlen m) \<le> \<bar>x\<bar>"
      using x by (simp add: y_def power_int_minus field_simps)
    then show ?thesis
      using False by (simp add: binade_def y_def m_def)
  qed
  show "\<bar>x\<bar> < 2 powi (binade x + 1)"
  proof (cases "1 \<le> \<bar>x\<bar>")
    case True
    then have p: "0 < \<lfloor>\<bar>x\<bar>\<rfloor>" by linarith
    have "\<bar>x\<bar> < of_int \<lfloor>\<bar>x\<bar>\<rfloor> + 1" by linarith
    also have "\<dots> \<le> (2::real) powi (bitlen \<lfloor>\<bar>x\<bar>\<rfloor>)"
    proof -
      have "\<lfloor>\<bar>x\<bar>\<rfloor> + 1 \<le> 2 ^ nat (bitlen \<lfloor>\<bar>x\<bar>\<rfloor>)"
        using bitlen_bounds [OF p] by simp
      then have "(of_int (\<lfloor>\<bar>x\<bar>\<rfloor> + 1) :: real) \<le> of_int (2 ^ nat (bitlen \<lfloor>\<bar>x\<bar>\<rfloor>))"
        by (simp only: of_int_le_iff)
      then show ?thesis
        using bitlen_pos_bounds(3) [OF p] by (simp add: power_int_def)
    qed
    finally show ?thesis
      using True by (simp add: binade_def)
  next
    case False
    define y where "y = 1 / \<bar>x\<bar>"
    have x: "0 < \<bar>x\<bar>" "\<bar>x\<bar> < 1" using assms False by simp_all
    then have y1: "1 < y" by (simp add: y_def)
    define m where "m = \<lceil>y\<rceil> - 1"
    have m: "0 < m" using y1 unfolding m_def by linarith
    have "(2::real) powi (bitlen m - 1) \<le> of_int m"
      by (rule bitlen_pos_bounds(1) [OF m])
    also have "of_int m < y" unfolding m_def by linarith
    finally have "(2::real) powi (bitlen m - 1) < y" .
    then have "1 / y < 1 / ((2::real) powi (bitlen m - 1))"
      using y1 by (intro divide_strict_left_mono mult_pos_pos) simp_all
    moreover have "1 / y = \<bar>x\<bar>"
      by (simp add: y_def)
    moreover have "1 / ((2::real) powi (bitlen m - 1)) = 2 powi (- bitlen m + 1)"
      using power_int_minus [of "2::real" "bitlen m - 1"] by (simp add: divide_inverse)
    ultimately have "\<bar>x\<bar> < 2 powi (- bitlen m + 1)"
      by (simp only:)
    moreover have "binade x = - bitlen m"
      using False by (simp add: binade_def y_def m_def)
    ultimately show ?thesis
      by (simp only:)
  qed
qed

lemma pow2_less_D: "(2::real) powi a < 2 powi b \<Longrightarrow> a < b"
proof (rule ccontr)
  assume l: "(2::real) powi a < 2 powi b" and "\<not> a < b"
  then have "b \<le> a" by simp
  then have "(2::real) powi b \<le> 2 powi a"
    by (rule power_int_increasing) simp
  with l show False by simp
qed

lemma binade_unique:
  assumes "2 powi e \<le> \<bar>x\<bar>" and "\<bar>x\<bar> < 2 powi (e + 1)"
  shows "binade x = e"
proof -
  have "0 < (2::real) powi e" by simp
  then have "0 < \<bar>x\<bar>" using assms(1) by linarith
  then have x: "x \<noteq> 0" by simp
  have "(2::real) powi binade x < 2 powi (e + 1)"
    using binade_bounds(1) [OF x] assms(2) by linarith
  then have a: "binade x < e + 1" by (rule pow2_less_D)
  have "(2::real) powi e < 2 powi (binade x + 1)"
    using binade_bounds(2) [OF x] assms(1) by linarith
  then have "e < binade x + 1" by (rule pow2_less_D)
  with a show ?thesis by simp
qed

lemma roundTiesToEven_lower: "\<lfloor>y\<rfloor> \<le> roundTiesToEven y"
  by (simp add: roundTiesToEven_def Let_def)

lemma roundTiesToEven_upper: "roundTiesToEven y \<le> \<lfloor>y\<rfloor> + 1"
  by (simp add: roundTiesToEven_def Let_def)

lemma roundTiesToEven_near: "\<bar>of_int (roundTiesToEven y) - y\<bar> \<le> 1 / 2"
proof -
  define n where "n = \<lfloor>y\<rfloor>"
  define d where "d = y - of_int n"
  define q where "q = roundTiesToEven y"
  have d: "0 \<le> d" "d < 1" unfolding d_def n_def by linarith+
  have y: "y = of_int n + d" by (simp add: d_def)
  have r: "q = (if d < 1 / 2 then n else if 1 / 2 < d then n + 1 else if even n then n else n + 1)"
    by (simp add: q_def roundTiesToEven_def Let_def n_def d_def)
  have "\<bar>of_int q - y\<bar> \<le> 1 / 2"
  proof (cases "d < 1 / 2")
    case True
    then have "q = n" by (simp add: r)
    then show ?thesis using True d by (simp add: y)
  next
    case False
    then have "q = n \<and> d = 1 / 2 \<or> q = n + 1"
      by (auto simp: r)
    then show ?thesis using False d by (auto simp: y)
  qed
  then show ?thesis by (simp add: q_def)
qed

lemma roundTiesToEven_of_int: "roundTiesToEven (of_int n) = n"
  by (simp add: roundTiesToEven_def)

lemma roundTiesToEven_mono:
  assumes "y \<le> z"
  shows "roundTiesToEven y \<le> roundTiesToEven z"
proof (cases "\<lfloor>y\<rfloor> = \<lfloor>z\<rfloor>")
  case True
  define n where "n = \<lfloor>z\<rfloor>"
  have d: "y - of_int n \<le> z - of_int n" using assms by simp
  show ?thesis
    using d by (simp add: roundTiesToEven_def Let_def True n_def [symmetric])
next
  case False
  then have "\<lfloor>y\<rfloor> < \<lfloor>z\<rfloor>"
    using floor_mono [OF assms] by simp
  then have "roundTiesToEven y \<le> \<lfloor>z\<rfloor>"
    using roundTiesToEven_upper [of y] by simp
  then show ?thesis
    using roundTiesToEven_lower [of z] by simp
qed

lemma ulp_pos: "0 < ulp x"
  by (simp add: ulp_def)

lemma ulp_scaled:
  assumes "0 < x"
  shows "2 ^ 52 \<le> x / ulp x" and "x / ulp x < 2 ^ 53"
    and "2 ^ 52 * ulp x = 2 powi binade x" and "2 ^ 53 * ulp x = 2 powi (binade x + 1)"
proof -
  have x: "x \<noteq> 0" "\<bar>x\<bar> = x" using assms by simp_all
  have a: "(2::real) ^ 52 * ulp x = 2 powi binade x"
    using power_int_add [of "2::real" 52 "binade x - 52"] by (simp add: ulp_def)
  have e: "binade x - 52 + 53 = binade x + 1" by simp
  have "(2::real) powi (binade x + 1) = 2 powi (binade x - 52) * 2 powi 53"
    unfolding e [symmetric] by (rule power_int_add) simp
  then have b: "(2::real) ^ 53 * ulp x = 2 powi (binade x + 1)"
    by (simp add: ulp_def mult.commute)
  show "2 ^ 52 * ulp x = 2 powi binade x" by (rule a)
  show "2 ^ 53 * ulp x = 2 powi (binade x + 1)" by (rule b)
  have "2 ^ 52 * ulp x \<le> x"
    using binade_bounds(1) [OF x(1)] unfolding a x(2) .
  then show "2 ^ 52 \<le> x / ulp x"
    using ulp_pos [of x] by (simp add: pos_le_divide_eq)
  have "x < 2 ^ 53 * ulp x"
    using binade_bounds(2) [OF x(1)] unfolding b x(2) .
  then show "x / ulp x < 2 ^ 53"
    using ulp_pos [of x] by (simp add: pos_divide_less_eq)
qed

lemma binary64_error:
  assumes "0 \<le> x"
  shows "\<bar>binary64 x - x\<bar> \<le> x / 2 ^ 53"
proof (cases "x = 0")
  case True
  then show ?thesis by (simp add: binary64_def)
next
  case False
  then have p: "0 < x" using assms by simp
  define u where "u = ulp x"
  have u: "0 < u" by (simp add: u_def ulp_pos)
  define r where "r = of_int (roundTiesToEven (x / u)) - x / u"
  have r: "\<bar>r\<bar> \<le> 1 / 2" unfolding r_def by (rule roundTiesToEven_near)
  have "binary64 x - x = r * u"
    using False u by (simp add: binary64_def r_def u_def [symmetric] algebra_simps)
  then have "\<bar>binary64 x - x\<bar> = \<bar>r\<bar> * u"
    using u by (simp add: abs_mult)
  also have "\<dots> \<le> 1 / 2 * u"
    using r u by (intro mult_right_mono) simp_all
  also have "\<dots> \<le> x / 2 ^ 53"
  proof -
    have "2 ^ 52 * u \<le> x"
      using ulp_scaled(1) [OF p] u by (simp add: u_def pos_le_divide_eq)
    then show ?thesis by simp
  qed
  finally show ?thesis .
qed

lemma binary64_binade:
  assumes "0 < x"
  shows "2 powi binade x \<le> binary64 x" and "binary64 x \<le> 2 powi (binade x + 1)"
proof -
  have x: "x \<noteq> 0" using assms by simp
  have "roundTiesToEven (of_int (2 ^ 52)) \<le> roundTiesToEven (x / ulp x)"
    using ulp_scaled(1) [OF assms] by (intro roundTiesToEven_mono) simp
  then have "(2 ^ 52 :: int) \<le> roundTiesToEven (x / ulp x)"
    by (simp only: roundTiesToEven_of_int)
  then have "(of_int (2 ^ 52) :: real) \<le> of_int (roundTiesToEven (x / ulp x))"
    by (simp only: of_int_le_iff)
  then have "2 ^ 52 * ulp x \<le> of_int (roundTiesToEven (x / ulp x)) * ulp x"
    using ulp_pos [of x] by (intro mult_right_mono) simp_all
  moreover have b: "binary64 x = of_int (roundTiesToEven (x / ulp x)) * ulp x"
    using x by (simp add: binary64_def)
  ultimately show "2 powi binade x \<le> binary64 x"
    by (simp only: ulp_scaled(3) [OF assms])
  have "roundTiesToEven (x / ulp x) \<le> roundTiesToEven (of_int (2 ^ 53))"
    using ulp_scaled(2) [OF assms] by (intro roundTiesToEven_mono) simp
  then have "roundTiesToEven (x / ulp x) \<le> (2 ^ 53 :: int)"
    by (simp only: roundTiesToEven_of_int)
  then have "(of_int (roundTiesToEven (x / ulp x)) :: real) \<le> of_int (2 ^ 53)"
    by (simp only: of_int_le_iff)
  then have "of_int (roundTiesToEven (x / ulp x)) * ulp x \<le> 2 ^ 53 * ulp x"
    using ulp_pos [of x] by (intro mult_right_mono) simp_all
  then show "binary64 x \<le> 2 powi (binade x + 1)"
    by (simp only: ulp_scaled(4) [OF assms] b)
qed

lemma binary64_nonneg: "0 \<le> x \<Longrightarrow> 0 \<le> binary64 x"
proof (cases "x = 0")
  case True
  then show ?thesis by (simp add: binary64_def)
next
  case False
  assume "0 \<le> x"
  with False have p: "0 < x" by simp
  have "0 < (2::real) powi binade x" by simp
  then show ?thesis using binary64_binade(1) [OF p] by linarith
qed

lemma binary64_mono:
  assumes "0 \<le> x" and "x \<le> y"
  shows "binary64 x \<le> binary64 y"
proof (cases "x = 0")
  case True
  then show ?thesis
    using binary64_nonneg [of y] assms by (simp add: binary64_def)
next
  case False
  then have px: "0 < x" using assms by simp
  then have py: "0 < y" using assms by simp
  have "(2::real) powi binade x < 2 powi (binade y + 1)"
    using binade_bounds(1) [of x] binade_bounds(2) [of y] px py assms(2) by simp
  then have le: "binade x \<le> binade y"
    using pow2_less_D [of "binade x" "binade y + 1"] by simp
  show ?thesis
  proof (cases "binade x = binade y")
    case True
    then have u: "ulp y = ulp x" by (simp add: ulp_def)
    have "x / ulp x \<le> y / ulp x"
      using assms(2) ulp_pos [of x] by (simp add: divide_right_mono)
    then have "roundTiesToEven (x / ulp x) \<le> roundTiesToEven (y / ulp x)"
      by (rule roundTiesToEven_mono)
    then have "(of_int (roundTiesToEven (x / ulp x)) :: real) \<le> of_int (roundTiesToEven (y / ulp x))"
      by (simp only: of_int_le_iff)
    then have "of_int (roundTiesToEven (x / ulp x)) * ulp x
        \<le> of_int (roundTiesToEven (y / ulp x)) * ulp x"
      using ulp_pos [of x] by (intro mult_right_mono) simp_all
    then show ?thesis
      using px py by (simp add: binary64_def u)
  next
    case False
    then have "binade x + 1 \<le> binade y" using le by simp
    then have "(2::real) powi (binade x + 1) \<le> 2 powi binade y"
      by (rule power_int_increasing) simp
    then show ?thesis
      using binary64_binade(2) [OF px] binary64_binade(1) [OF py] by linarith
  qed
qed

lemma binary64_representable:
  assumes "0 < m" and "m < 2 ^ 53"
  shows "binary64 (of_int m * 2 powi k) = of_int m * 2 powi k"
proof -
  define x :: real where "x = of_int m * 2 powi k"
  have px: "0 < x" using assms(1) by (simp add: x_def)
  define j where "j = k - binade x + 52"
  have "(2::real) powi binade x \<le> x"
    using binade_bounds(1) [of x] px by simp
  also have "x < 2 ^ 53 * 2 powi k"
  proof -
    have "(of_int m :: real) < of_int (2 ^ 53)"
      using assms(2) by (simp only: of_int_less_iff)
    then show ?thesis
      unfolding x_def by (intro mult_strict_right_mono) simp_all
  qed
  also have "(2::real) ^ 53 * 2 powi k = 2 powi (53 + k)"
    using power_int_add [of "2::real" 53 k] by simp
  finally have "binade x < 53 + k" by (rule pow2_less_D)
  then have j: "0 \<le> j" by (simp add: j_def)
  have "x / ulp x = of_int m * (2 powi k / 2 powi (binade x - 52))"
    by (simp add: x_def ulp_def)
  also have "(2::real) powi k / 2 powi (binade x - 52) = 2 powi j"
    using power_int_diff [of "2::real" k "binade x - 52"] by (simp add: j_def algebra_simps)
  also have "(2::real) powi j = of_int (2 ^ nat j)"
    using j by (simp add: power_int_def)
  finally have "x / ulp x = of_int (m * 2 ^ nat j)"
    by simp
  then have "roundTiesToEven (x / ulp x) = m * 2 ^ nat j"
    by (simp only: roundTiesToEven_of_int)
  then have "binary64 x = of_int (m * 2 ^ nat j) * ulp x"
    using px by (simp add: binary64_def)
  also have "\<dots> = x / ulp x * ulp x"
    using \<open>x / ulp x = of_int (m * 2 ^ nat j)\<close> by simp
  also have "\<dots> = x"
    using ulp_pos [of x] by simp
  finally show ?thesis by (simp add: x_def)
qed

lemma binary64_of_int:
  assumes "0 \<le> m" and "m < 2 ^ 53"
  shows "binary64 (of_int m) = of_int m"
proof (cases "m = 0")
  case True
  then show ?thesis by (simp add: binary64_def)
next
  case False
  then have "0 < m" using assms(1) by simp
  then show ?thesis
    using binary64_representable [of m 0] assms(2) by simp
qed

lemma binary64_values:
  "binary64 0 = 0" "binary64 1 = 1" "binary64 100 = 100" "binary64 1000 = 1000"
  using binary64_of_int [of 0] binary64_of_int [of 1] binary64_of_int [of 100]
    binary64_of_int [of 1000]
  by simp_all

lemma binary64_eval:
  assumes "2 powi e \<le> x" and "x < 2 powi (e + 1)"
  shows "binary64 x = of_int (roundTiesToEven (x / 2 powi (e - 52))) * 2 powi (e - 52)"
proof -
  have "0 < (2::real) powi e" by simp
  then have p: "0 < x" using assms(1) by linarith
  then have "binade x = e"
    using assms by (intro binade_unique) simp_all
  then show ?thesis
    using p by (simp add: binary64_def ulp_def)
qed

section \<open>Lemmas on the percentage\<close>

lemma clampedRatio_range:
  assumes "start \<le> end"
  shows "0 \<le> clampedRatio now start end" and "clampedRatio now start end \<le> 1"
proof -
  show "0 \<le> clampedRatio now start end"
    using assms by (simp add: clampedRatio_def)
  show "clampedRatio now start end \<le> 1"
    using assms by (simp add: clampedRatio_def)
qed

lemma clampedRatio_mono:
  assumes "start \<le> end" "now1 \<le> now2"
  shows "clampedRatio now1 start end \<le> clampedRatio now2 start end"
proof (cases "end = start")
  case True
  then show ?thesis by (simp add: clampedRatio_def)
next
  case False
  then have "0 < (of_int (end - start) :: real)" using assms by simp
  moreover have "min (max now1 start) end - start \<le> min (max now2 start) end - start"
    using assms by simp
  ultimately show ?thesis
    using False by (simp add: clampedRatio_def divide_right_mono)
qed

lemma percentComplete_Math_round:
  "percentComplete now start end = of_int (Math_round (1000 * clampedRatio now start end)) / 10"
  by (simp add: percentComplete_def roundOneDecimal_def Math_round_def mult.commute)

lemma Math_round_mono: "x \<le> y \<Longrightarrow> Math_round x \<le> Math_round y"
  unfolding Math_round_def by (intro floor_mono) simp

lemma Math_round_of_int: "Math_round (of_int n) = n"
  unfolding Math_round_def by linarith

lemma Math_round_near: "\<bar>of_int (Math_round x) - x\<bar> \<le> 1 / 2"
  unfolding Math_round_def by linarith

lemma Math_round_stable:
  assumes "\<not> nearMidpoint y" and "\<bar>x - y\<bar> < 1 / 2 ^ 42"
  shows "Math_round x = Math_round y"
proof -
  define n where "n = \<lfloor>y + 1 / 2\<rfloor>"
  have f: "1 / 2 ^ 42 \<le> y + 1 / 2 - of_int n" "y + 1 / 2 - of_int n \<le> 1 - 1 / 2 ^ 42"
    using assms(1) by (simp_all add: nearMidpoint_def Let_def n_def not_less)
  have x: "y - 1 / 2 ^ 42 < x" "x < y + 1 / 2 ^ 42"
    using assms(2) by linarith+
  have "of_int n \<le> x + 1 / 2" using f(1) x(1) by linarith
  moreover have "x + 1 / 2 < of_int n + 1" using f(2) x(2) by linarith
  ultimately have "\<lfloor>x + 1 / 2\<rfloor> = n" by (rule floor_unique)
  then show ?thesis by (simp add: Math_round_def n_def)
qed

lemma scaled_nonneg: "0 \<le> q \<Longrightarrow> 0 \<le> js_times q 1000"
  unfolding js_times_def by (intro binary64_nonneg) simp

lemma scaled_mono: "0 \<le> q \<Longrightarrow> q \<le> q' \<Longrightarrow> js_times q 1000 \<le> js_times q' 1000"
  unfolding js_times_def by (intro binary64_mono) simp_all

lemma tenths_nonneg: "0 \<le> x \<Longrightarrow> 0 \<le> (of_int (Math_round x) :: real) / 10"
proof -
  assume "0 \<le> x"
  then have "Math_round 0 \<le> Math_round x" by (rule Math_round_mono)
  then have "0 \<le> Math_round x" by (simp add: Math_round_def)
  then show ?thesis by simp
qed

lemma roundedPercent_mono:
  assumes "0 \<le> q" and "q \<le> q'"
  shows "roundedPercent q \<le> roundedPercent q'"
proof -
  have "Math_round (js_times q 1000) \<le> Math_round (js_times q' 1000)"
    using scaled_mono [OF assms] by (rule Math_round_mono)
  then have "(of_int (Math_round (js_times q 1000)) :: real) / 10
      \<le> of_int (Math_round (js_times q' 1000)) / 10"
    by simp
  then show ?thesis
    unfolding roundedPercent_def
    using tenths_nonneg [OF scaled_nonneg [OF assms(1)]] by (intro binary64_mono)
qed

lemma roundedPercent_0: "roundedPercent 0 = 0"
  by (simp add: roundedPercent_def js_times_def binary64_values Math_round_def)

lemma roundedPercent_1: "roundedPercent 1 = 100"
proof -
  have "Math_round (binary64 1000) = 1000"
    using Math_round_of_int [of 1000] by (simp add: binary64_values)
  then show ?thesis
    by (simp add: roundedPercent_def js_times_def binary64_values)
qed

lemma roundedPercent_range:
  assumes "0 \<le> q" and "q \<le> 1"
  shows "0 \<le> roundedPercent q" and "roundedPercent q \<le> 100"
  using roundedPercent_mono [of 0 q] roundedPercent_mono [of q 1] assms
  by (simp_all add: roundedPercent_0 roundedPercent_1)

lemma ratio64_range:
  assumes "start \<le> end"
  shows "0 \<le> binary64 (clampedRatio now start end)"
    and "binary64 (clampedRatio now start end) \<le> 1"
  using binary64_nonneg [OF clampedRatio_range(1) [OF assms, of now]]
    binary64_mono [OF clampedRatio_range(1) [OF assms, of now] clampedRatio_range(2) [OF assms, of now]]
  by (simp_all add: binary64_values)

lemma calculateProgress_eq:
  assumes "start \<le> end"
  shows "calculateProgress now start end
      = Some (roundedPercent (binary64 (clampedRatio now start end)))"
proof (cases "end = start")
  case True
  then show ?thesis
    by (simp add: calculateProgress_def clampedRatio_def roundedPercent_def binary64_values)
next
  case False
  have e: "min (max (now - start) 0) (end - start) = min (max now start) end - start"
    by linarith
  show ?thesis
    using False
    by (simp add: calculateProgress_def clampedRatio_def roundedPercent_def js_divide_def
        Let_def e)
qed

lemma ProgressBar_percent:
  "card_percent (ProgressBar item now) =
     calculateProgress now (range_start (normalizeRange (pi_start item) (pi_end item)))
       (range_end (normalizeRange (pi_start item) (pi_end item)))"
  by (simp add: ProgressBar_def calculateProgress_def Let_def clamp_def)

lemma normalizeRange_ordered:
  "range_start (normalizeRange s e) \<le> range_end (normalizeRange s e)"
  by (simp add: normalizeRange_def)

lemma normalizeRange_id: "s \<le> e \<Longrightarrow> normalizeRange s e = \<lparr>range_start = s, range_end = e\<rparr>"
  by (auto simp: normalizeRange_def)

lemma scaled_error:
  assumes "0 \<le> r" and "r \<le> 1"
  shows "\<bar>js_times (binary64 r) 1000 - 1000 * r\<bar> \<le> 2000 / 2 ^ 53"
proof -
  define q where "q = binary64 r"
  have q: "0 \<le> q" "q \<le> 1"
    using binary64_nonneg [OF assms(1)] binary64_mono [OF assms] by (simp_all add: q_def binary64_values)
  have a: "\<bar>q - r\<bar> \<le> 1 / 2 ^ 53"
  proof -
    have "\<bar>q - r\<bar> \<le> r / 2 ^ 53" unfolding q_def by (rule binary64_error [OF assms(1)])
    also have "\<dots> \<le> 1 / 2 ^ 53" using assms(2) by (simp add: divide_right_mono)
    finally show ?thesis .
  qed
  have b: "\<bar>binary64 (q * 1000) - q * 1000\<bar> \<le> 1000 / 2 ^ 53"
  proof -
    have "\<bar>binary64 (q * 1000) - q * 1000\<bar> \<le> q * 1000 / 2 ^ 53"
      using q(1) by (intro binary64_error) simp
    also have "\<dots> \<le> 1000 / 2 ^ 53" using q(2) by (simp add: divide_right_mono)
    finally show ?thesis .
  qed
  show ?thesis
    unfolding js_times_def q_def [symmetric] using a b by linarith
qed

lemma roundedPercent_tenths:
  assumes "0 \<le> r" and "r \<le> 1"
  shows "\<exists>k. roundedPercent (binary64 r) = binary64 (of_int k / 10) \<and> 0 \<le> k \<and> k \<le> 1000
      \<and> \<bar>of_int k / 10 - 100 * r\<bar> \<le> 1 / 20 + 1 / 2 ^ 45"
proof -
  define q where "q = binary64 r"
  define x where "x = js_times q 1000"
  define k where "k = Math_round x"
  have q: "0 \<le> q" "q \<le> 1"
    using binary64_nonneg [OF assms(1)] binary64_mono [OF assms] by (simp_all add: q_def binary64_values)
  have x0: "0 \<le> x" unfolding x_def by (rule scaled_nonneg [OF q(1)])
  have x1: "x \<le> 1000"
    using scaled_mono [OF q] by (simp add: x_def js_times_def binary64_values)
  have k0: "0 \<le> k"
    using Math_round_mono [OF x0] by (simp add: k_def Math_round_def)
  have k1: "k \<le> 1000"
    using Math_round_mono [OF x1] Math_round_of_int [of 1000] by (simp add: k_def)
  have e: "\<bar>x - 1000 * r\<bar> \<le> 2000 / 2 ^ 53"
    unfolding x_def q_def by (rule scaled_error [OF assms])
  have n: "\<bar>of_int k - x\<bar> \<le> 1 / 2"
    unfolding k_def by (rule Math_round_near)
  have s: "\<bar>of_int k - 1000 * r\<bar> \<le> 1 / 2 + 2000 / 2 ^ 53"
    using e n by linarith
  have "of_int k / 10 - 100 * r = (of_int k - 1000 * r) / 10"
    by simp
  then have "\<bar>of_int k / 10 - 100 * r\<bar> = \<bar>of_int k - 1000 * r\<bar> / 10"
    by (simp only: abs_divide)
  also have "\<dots> \<le> (1 / 2 + 2000 / 2 ^ 53) / 10"
    using s by (rule divide_right_mono) simp
  also have "\<dots> \<le> 1 / 20 + 1 / 2 ^ 45"
    by simp
  finally have "\<bar>of_int k / 10 - 100 * r\<bar> \<le> 1 / 20 + 1 / 2 ^ 45" .
  moreover have "roundedPercent (binary64 r) = binary64 (of_int k / 10)"
    by (simp add: roundedPercent_def k_def x_def q_def)
  ultimately show ?thesis using k0 k1 by blast
qed

lemma roundedPercent_exact:
  assumes "0 \<le> r" and "r \<le> 1" and "\<not> nearMidpoint (1000 * r)"
  shows "roundedPercent (binary64 r) = binary64 (of_int (Math_round (1000 * r)) / 10)"
proof -
  have "\<bar>js_times (binary64 r) 1000 - 1000 * r\<bar> \<le> 2000 / 2 ^ 53"
    by (rule scaled_error [OF assms(1,2)])
  also have "(2000 :: real) / 2 ^ 53 < 1 / 2 ^ 42" by simp
  finally have "Math_round (js_times (binary64 r) 1000) = Math_round (1000 * r)"
    by (rule Math_round_stable [OF assms(3)])
  then show ?thesis by (simp add: roundedPercent_def)
qed

lemma calculateProgress_exact:
  assumes "start \<le> end" and "\<not> nearMidpoint (1000 * clampedRatio now start end)"
  shows "calculateProgress now start end = Some (binary64 (percentComplete now start end))"
  using roundedPercent_exact [OF clampedRatio_range [OF assms(1)] assms(2)]
  by (simp add: calculateProgress_eq [OF assms(1)] percentComplete_Math_round)

lemma calculateProgress_tenths:
  fixes now start "end" :: int
  assumes "start \<le> end"
  defines "r \<equiv> clampedRatio now start end"
  defines "k \<equiv> Math_round (js_times (binary64 r) 1000)"
  shows "calculateProgress now start end = Some (binary64 (of_int k / 10))"
    and "0 \<le> k" and "k \<le> 1000"
    and "\<bar>of_int k / 10 - 100 * r\<bar> \<le> 1 / 20 + 1 / 2 ^ 45"
    and "0 \<le> binary64 (of_int k / 10)" and "binary64 (of_int k / 10) \<le> 100"
    and "\<not> nearMidpoint (1000 * r) \<Longrightarrow> of_int k / 10 = percentComplete now start end"
proof -
  have r: "0 \<le> r" "r \<le> 1"
    unfolding r_def by (rule clampedRatio_range [OF assms(1)])+
  have q: "0 \<le> binary64 r" "binary64 r \<le> 1"
    unfolding r_def by (rule ratio64_range [OF assms(1)])+
  define x where "x = js_times (binary64 r) 1000"
  have x0: "0 \<le> x" unfolding x_def by (rule scaled_nonneg [OF q(1)])
  have x1: "x \<le> 1000"
    using scaled_mono [OF q] by (simp add: x_def js_times_def binary64_values)
  show k0: "0 \<le> k"
    using Math_round_mono [OF x0] by (simp add: k_def x_def Math_round_def)
  show k1: "k \<le> 1000"
    using Math_round_mono [OF x1] Math_round_of_int [of 1000] by (simp add: k_def x_def)
  show c: "calculateProgress now start end = Some (binary64 (of_int k / 10))"
    by (simp add: calculateProgress_eq [OF assms(1)] roundedPercent_def k_def r_def)
  have e: "\<bar>x - 1000 * r\<bar> \<le> 2000 / 2 ^ 53"
    unfolding x_def by (rule scaled_error [OF r])
  have n: "\<bar>of_int k - x\<bar> \<le> 1 / 2"
    unfolding k_def x_def by (rule Math_round_near)
  have s: "\<bar>of_int k - 1000 * r\<bar> \<le> 1 / 2 + 2000 / 2 ^ 53"
    using e n by linarith
  have "of_int k / 10 - 100 * r = (of_int k - 1000 * r) / 10"
    by simp
  then have "\<bar>of_int k / 10 - 100 * r\<bar> = \<bar>of_int k - 1000 * r\<bar> / 10"
    by (simp only: abs_divide)
  also have "\<dots> \<le> (1 / 2 + 2000 / 2 ^ 53) / 10"
    using s by (rule divide_right_mono) simp
  also have "\<dots> \<le> 1 / 20 + 1 / 2 ^ 45"
    by simp
  finally show "\<bar>of_int k / 10 - 100 * r\<bar> \<le> 1 / 20 + 1 / 2 ^ 45" .
  have p: "binary64 (of_int k / 10) = roundedPercent (binary64 r)"
    by (simp add: roundedPercent_def k_def)
  show "0 \<le> binary64 (of_int k / 10)" and "binary64 (of_int k / 10) \<le> 100"
    unfolding p by (rule roundedPercent_range [OF q])+
  show "of_int k / 10 = percentComplete now start end" if "\<not> nearMidpoint (1000 * r)"
  proof -
    have "(2000 :: real) / 2 ^ 53 < 1 / 2 ^ 42" by simp
    with e have "\<bar>x - 1000 * r\<bar> < 1 / 2 ^ 42" by linarith
    then have "Math_round x = Math_round (1000 * r)"
      by (rule Math_round_stable [OF that])
    then show ?thesis
      by (simp add: percentComplete_Math_round k_def x_def r_def)
  qed
qed

text \<open>
  A tie that binary64 breaks downwards: the ratio 0.5005 is rounded to a binary64 number
  below it, and a thousand times that to one below 500.5.
\<close>

lemma tie_example:
  "binary64 (1001 / 2000) = 2254051613498933 / 4503599627370496"
  "js_times (2254051613498933 / 4503599627370496) 1000 = 8804889115230207 / 17592186044416"
  "Math_round (8804889115230207 / 17592186044416) = 500"
proof -
  show "binary64 (1001 / 2000) = 2254051613498933 / 4503599627370496"
    using binary64_eval [of "- 1" "1001 / 2000"]
    by (simp add: roundTiesToEven_def Let_def)
  show "js_times (2254051613498933 / 4503599627370496) 1000 = 8804889115230207 / 17592186044416"
    using binary64_eval [of 8 "2254051613498933 / 4503599627370496 * 1000"]
    by (simp add: js_times_def roundTiesToEven_def Let_def)
  show "Math_round (8804889115230207 / 17592186044416) = 500"
    by (simp add: Math_round_def)
qed

section \<open>Lemmas on ranges, remaining time and the entry points\<close>

lemma ceiling_of_clamped:
  fixes c :: real
  assumes "0 < c"
  shows "\<lceil>of_int (max 0 d) / c\<rceil> = max 0 \<lceil>of_int d / c\<rceil>"
proof (cases "d \<le> 0")
  case True
  then have "of_int d / c \<le> 0"
    using assms by (simp add: divide_nonpos_pos)
  then have "\<lceil>of_int d / c\<rceil> \<le> 0"
    by (simp add: ceiling_le_iff)
  then have "max 0 \<lceil>of_int d / c\<rceil> = 0"
    by (rule max_absorb1)
  moreover have "max 0 d = 0"
    using True by (rule max_absorb1)
  ultimately show ?thesis by simp
next
  case False
  then have "0 < of_int d / c"
    using assms by simp
  then have "0 < \<lceil>of_int d / c\<rceil>"
    by (simp add: less_ceiling_iff)
  then have "max 0 \<lceil>of_int d / c\<rceil> = \<lceil>of_int d / c\<rceil>"
    by (simp add: max_absorb2)
  moreover have "max 0 d = d"
    using False by (simp add: max_absorb2)
  ultimately show ?thesis by simp
qed

lemma ceiling_positive:
  fixes c :: real
  assumes "0 < c" "0 < d"
  shows "1 \<le> \<lceil>of_int d / c\<rceil>"
proof -
  have "0 < of_int d / c" using assms by simp
  then have "0 < \<lceil>of_int d / c\<rceil>" by (simp add: less_ceiling_iff)
  then show ?thesis by linarith
qed

lemma new_Date_values:
  "new_Date tz 2025 8 2 0 0 = 1756771200000 - tz 1756771200000 False"
  "new_Date tz 2026 1 2 11 45 = 1770032700000 - tz 1770032700000 False"
  "new_Date tz 2026 5 24 0 0 = 1782259200000 - tz 1782259200000 False"
  "new_Date tz 2023 8 5 0 0 = 1693872000000 - tz 1693872000000 False"
  "new_Date tz 2027 5 25 0 0 = 1813881600000 - tz 1813881600000 False"
  "new_Date tz 2026 1 2 0 0 = 1769990400000 - tz 1769990400000 False"
  "new_Date tz 2025 5 24 0 0 = 1750723200000 - tz 1750723200000 False"
  by (simp_all add: new_Date_def UTC_def MakeDate_def MakeDay_def MakeTime_def fullYear_def
      DayFromYear_def DaysBeforeMonth_def DaysInYear_def msPerDay_def)

lemma zoneBoundedD:
  "zoneBounded tz \<Longrightarrow> - 86400000 < tz t b \<and> tz t b < 86400000"
  by (simp add: zoneBounded_def msPerDay_def)

lemma ProgressBar_daysLeft:
  "card_daysLeft (ProgressBar item now) =
     max 0 \<lceil>of_int (range_end (normalizeRange (pi_start item) (pi_end item)) - now)
                / (86400000 :: real)\<rceil>"
  by (simp add: ProgressBar_def Let_def Math_ceil_def)

lemma normalizeRange_swap: "normalizeRange e s = normalizeRange s e"
  by (simp add: normalizeRange_def)

lemma share_not_found:
  assumes "items tz target = None \<or> unitOf unit = None"
  shows "generateMetadata tz now target unit = Inr notFoundMetadata"
    and "SharePage tz now target unit = Inl NotFound"
  using assms
  by (auto simp: generateMetadata_def SharePage_def split: option.splits)

lemma share_found:
  assumes "target = ''semester'' \<or> target = ''year'' \<or> target = ''school''"
    and "unit = ''days'' \<or> unit = ''hours'' \<or> unit = ''seconds''"
  shows "generateMetadata tz now target unit \<noteq> Inr notFoundMetadata"
    and "\<exists>v. SharePage tz now target unit = Inr v"
  using assms
  by (auto simp: generateMetadata_def SharePage_def items_def unitOf_def semester_def year_def
      school_def Let_def notFoundMetadata_def titleOf_def)

lemma items_None_iff:
  "items tz target = None \<longleftrightarrow>
     target \<notin> {''semester'', ''year'', ''school''} \<and> target \<notin> set Object_prototype_keys"
  by (simp add: items_def)

lemma inherited_key_throws:
  assumes "target \<in> set Object_prototype_keys"
    and "unit = ''days'' \<or> unit = ''hours'' \<or> unit = ''seconds''"
  shows "generateMetadata tz now target unit = Inl TypeError"
    and "SharePage tz now target unit = Inl TypeError"
proof -
  have i: "items tz target = Some Inherited"
    using assms(1) by (auto simp: items_def Object_prototype_keys_def)
  have u: "unitOf unit \<noteq> None"
    using assms(2) by (auto simp: unitOf_def)
  show "generateMetadata tz now target unit = Inl TypeError"
    using i u by (auto simp: generateMetadata_def)
  show "SharePage tz now target unit = Inl TypeError"
    using i u by (auto simp: SharePage_def)
qed

lemma MS_PER_DAY_msPerDay: "MS_PER_DAY = msPerDay"
  by (simp add: MS_PER_DAY_def msPerDay_def)

lemma dateOnly_dvd: "MS_PER_DAY dvd dateOnly tz t"
  by (simp add: dateOnly_def Date_UTC_def MakeDate_def MS_PER_DAY_msPerDay)

lemma dateOnly_local_day:
  assumes "getFullYear tz t < 0 \<or> 99 < getFullYear tz t"
  shows "dateOnly tz t = MS_PER_DAY * Day (LocalTime tz t)"
proof -
  have "fullYear (getFullYear tz t) = YearFromTime (LocalTime tz t)"
    using assms by (auto simp: fullYear_def getFullYear_def)
  then show ?thesis
    by (simp add: dateOnly_def Date_UTC_def MakeDate_def getMonth_def getDate_def
        MakeDay_of_time MS_PER_DAY_msPerDay)
qed

lemma Math_round_whole: "Math_round (of_int (MS_PER_DAY * k) / of_int MS_PER_DAY) = k"
proof -
  have "(of_int (MS_PER_DAY * k) :: real) / of_int MS_PER_DAY = of_int k"
    by (simp add: MS_PER_DAY_def)
  then show ?thesis
    unfolding Math_round_def by (simp only:) linarith
qed

lemma calculateDateDiffInDays_div:
  "calculateDateDiffInDays tz end now = max 0 ((dateOnly tz end - dateOnly tz now) div MS_PER_DAY)"
proof -
  obtain k where k: "dateOnly tz end - dateOnly tz now = MS_PER_DAY * k"
    using dvd_diff [OF dateOnly_dvd [of tz "end"] dateOnly_dvd [of tz now]]
    by (auto simp: dvd_def)
  have d: "(dateOnly tz end - dateOnly tz now) div MS_PER_DAY = k"
    unfolding k by (simp add: MS_PER_DAY_def)
  have r: "Math_round (of_int (dateOnly tz end - dateOnly tz now) / of_int MS_PER_DAY) = k"
    using Math_round_whole [of k] by (simp only: k)
  have "calculateDateDiffInDays tz end now =
      max 0 (Math_round (of_int (dateOnly tz end - dateOnly tz now) / of_int MS_PER_DAY))"
    by (simp only: calculateDateDiffInDays_def Let_def dateOnly_def)
  also have "\<dots> = max 0 k"
    by (simp only: r)
  finally show ?thesis
    by (simp only: d)
qed

lemma calendar_days_left:
  assumes e: "getFullYear tz end < 0 \<or> 99 < getFullYear tz end"
    and n: "getFullYear tz now < 0 \<or> 99 < getFullYear tz now"
  shows "calculateTimeLeft tz now end Days
          = max 0 (Day (LocalTime tz end) - Day (LocalTime tz now))"
proof -
  have "dateOnly tz end - dateOnly tz now
      = MS_PER_DAY * (Day (LocalTime tz end) - Day (LocalTime tz now))"
    by (simp add: dateOnly_local_day [OF e] dateOnly_local_day [OF n] right_diff_distrib)
  moreover have "(MS_PER_DAY * j) div MS_PER_DAY = j" for j
    by (simp add: MS_PER_DAY_def)
  ultimately show ?thesis
    by (simp add: calculateTimeLeft_def calculateDateDiffInDays_div)
qed

lemma DayFromYear_mono: "y \<le> z \<Longrightarrow> DayFromYear y \<le> DayFromYear z"
proof (induction z rule: int_ge_induct)
  case base
  show ?case by simp
next
  case (step i)
  then show ?case
    using DayFromYear_Suc [of i] DaysInYear_cases [of i] by linarith
qed

lemma YearFromDay_largest: "DayFromYear y \<le> d \<longleftrightarrow> y \<le> YearFromDay d"
proof
  assume a: "DayFromYear y \<le> d"
  show "y \<le> YearFromDay d"
  proof (rule ccontr)
    assume "\<not> y \<le> YearFromDay d"
    then have "YearFromDay d + 1 \<le> y" by simp
    then have "DayFromYear (YearFromDay d + 1) \<le> DayFromYear y"
      by (rule DayFromYear_mono)
    then show False
      using a YearFromDay_bounds [of d] by linarith
  qed
next
  assume "y \<le> YearFromDay d"
  then have "DayFromYear y \<le> DayFromYear (YearFromDay d)"
    by (rule DayFromYear_mono)
  then show "DayFromYear y \<le> d"
    using YearFromDay_bounds [of d] by linarith
qed

lemmas calendar_defs =
  getFullYear_def getMonth_def getDate_def LocalTime_def YearFromTime_def YearFromDay_def
  MonthFromTime_def DateFromTime_def DayWithinYear_def InLeapYear_def Day_def msPerDay_def
  DayFromYear_def DaysInYear_def DaysBeforeMonth_def Date_UTC_def MakeDate_def MakeDay_def
  fullYear_def Let_def

lemma fixedZone_apply: "fixedZone off t b = off"
  by (simp add: fixedZone_def)

text \<open>
  Across a change of the offset the two surfaces count the days to the end of high school
  differently: on 10 January 2027, 23:30 Eastern Standard Time, the dashboard shows 165
  days and the share page 166.
\<close>

lemma high_school_days_across_daylight_saving:
  "zoneBounded easternZone"
  "pi_end (items_dashboard easternZone ! 2) = 1813896000000"
  "LocalTime easternZone 1813896000000 = MakeDate (MakeDay 2027 5 25) 0"
  "card_daysLeft (ProgressBar (items_dashboard easternZone ! 2) 1799641800000) = 165"
  "calculateTimeLeft easternZone 1799641800000 1813896000000 Days = 166"
proof -
  show "zoneBounded easternZone"
    by (simp add: zoneBounded_def easternZone_def msPerDay_def)
  have e: "new_Date easternZone 2027 5 25 0 0 = 1813896000000"
    and s: "new_Date easternZone 2023 8 5 0 0 = 1693890000000"
    by (simp_all add: new_Date_values easternZone_def)
  show "pi_end (items_dashboard easternZone ! 2) = 1813896000000"
    by (simp add: items_dashboard_def e)
  show "LocalTime easternZone 1813896000000 = MakeDate (MakeDay 2027 5 25) 0"
    by (simp add: LocalTime_def easternZone_def MakeDate_def MakeDay_def DayFromYear_def
        DaysBeforeMonth_def DaysInYear_def msPerDay_def)
  show "card_daysLeft (ProgressBar (items_dashboard easternZone ! 2) 1799641800000) = 165"
    by (simp add: ProgressBar_daysLeft items_dashboard_def e s normalizeRange_def)
  show "calculateTimeLeft easternZone 1799641800000 1813896000000 Days = 166"
    by (simp add: calculateTimeLeft_def calculateDateDiffInDays_def calendar_defs
        easternZone_def MS_PER_DAY_def Math_round_def)
qed

lemma yearReadInFull_iff:
  "yearReadInFull t \<longleftrightarrow> YearFromTime t < 0 \<or> 99 < YearFromTime t"
proof -
  have "Day t < DayFromYear 0 \<longleftrightarrow> YearFromDay (Day t) < 0"
    using YearFromDay_largest [of 0 "Day t"] by linarith
  moreover have "DayFromYear 100 \<le> Day t \<longleftrightarrow> 99 < YearFromDay (Day t)"
    using YearFromDay_largest [of 100 "Day t"] by linarith
  ultimately show ?thesis
    by (simp add: yearReadInFull_def YearFromTime_def)
qed

lemma calendar_days_left_in_full:
  assumes "yearReadInFull (LocalTime tz end)" and "yearReadInFull (LocalTime tz now)"
  shows "calculateTimeLeft tz now end Days
      = max 0 (Day (LocalTime tz end) - Day (LocalTime tz now))"
  using assms
  by (intro calendar_days_left) (simp_all add: yearReadInFull_iff getFullYear_def)

lemma yearReadInFull_day: "20486 \<le> Day t \<Longrightarrow> yearReadInFull t"
  by (simp add: yearReadInFull_def DayFromYear_def)

lemma ceiling_days_shifted:
  fixes K x delta :: int
  shows "\<lceil>of_int (K * 86400000 - x + delta) / (86400000 :: real)\<rceil>
      = K - x div 86400000 + \<lceil>of_int (delta - x mod 86400000) / (86400000 :: real)\<rceil>"
proof -
  define q where "q = x div 86400000"
  define r where "r = x mod 86400000"
  have x: "x = q * 86400000 + r"
    by (simp add: q_def r_def)
  have e: "K * 86400000 - x + delta = (K - q) * 86400000 + (delta - r)"
    by (simp add: x algebra_simps)
  have "(of_int ((K - q) * 86400000 + (delta - r)) :: real) / 86400000
      = of_int (delta - r) / 86400000 + of_int (K - q)"
    by (simp add: add_divide_distrib)
  then have "\<lceil>(of_int ((K - q) * 86400000 + (delta - r)) :: real) / 86400000\<rceil>
      = \<lceil>(of_int (delta - r) :: real) / 86400000\<rceil> + (K - q)"
    by (simp only: ceiling_add_of_int)
  then show ?thesis
    by (simp only: e q_def r_def)
qed

lemma ceiling_day_fraction:
  fixes w :: int
  shows "\<lceil>of_int w / (86400000 :: real)\<rceil> = 0 \<longleftrightarrow> - 86400000 < w \<and> w \<le> 0"
proof -
  have "\<lceil>of_int w / (86400000 :: real)\<rceil> \<le> 0 \<longleftrightarrow> w \<le> 0"
    by (simp add: ceiling_le_iff)
  moreover have "- 1 < \<lceil>of_int w / (86400000 :: real)\<rceil> \<longleftrightarrow> - 86400000 < w"
  proof -
    have "(- 86400000 < (of_int w :: real)) = (of_int (- 86400000) < (of_int w :: real))"
      by simp
    also have "\<dots> = (- 86400000 < w)"
      by (simp only: of_int_less_iff)
    finally show ?thesis
      by (simp add: less_ceiling_iff)
  qed
  ultimately show ?thesis by linarith
qed

text \<open>
  The days left of the share page, for an end on the local day \<open>K\<close> of the host, and
  the days left of the dashboard, for the end at the midnight that starts the day \<open>K\<close>
  in the browser: they are the same when the two counts can be compared, and before the
  day \<open>K\<close> only then.
\<close>

lemma days_compared:
  assumes k: "Day (LocalTime tzS endS) = K"
    and ye: "yearReadInFull (LocalTime tzS endS)"
    and yn: "yearReadInFull (LocalTime tzS now)"
    and d: "endD = K * msPerDay - tzD (K * msPerDay) False"
  shows "daysComparable tzS tzD now (K * msPerDay) \<Longrightarrow>
      calculateTimeLeft tzS now endS Days = max 0 \<lceil>of_int (endD - now) / (86400000 :: real)\<rceil>"
    and "Day (LocalTime tzS now) < K \<Longrightarrow>
      calculateTimeLeft tzS now endS Days = max 0 \<lceil>of_int (endD - now) / (86400000 :: real)\<rceil>
        \<Longrightarrow> daysComparable tzS tzD now (K * msPerDay)"
proof -
  define x where "x = LocalTime tzS now"
  define delta where "delta = tzS now True - tzD (K * msPerDay) False"
  define c where "c = \<lceil>of_int (delta - x mod 86400000) / (86400000 :: real)\<rceil>"
  have cmp: "daysComparable tzS tzD now (K * msPerDay) \<longleftrightarrow> c = 0"
    unfolding c_def ceiling_day_fraction
    by (auto simp: daysComparable_def Let_def TimeWithinDay_def msPerDay_def x_def delta_def)
  have "endD - now = K * 86400000 - x + delta"
    by (simp add: d x_def delta_def LocalTime_def msPerDay_def)
  then have dash: "\<lceil>of_int (endD - now) / (86400000 :: real)\<rceil> = K - Day x + c"
    using ceiling_days_shifted [of K x delta] by (simp add: c_def Day_def msPerDay_def)
  have share: "calculateTimeLeft tzS now endS Days = max 0 (K - Day x)"
    using calendar_days_left_in_full [OF ye yn] by (simp add: k x_def)
  show "calculateTimeLeft tzS now endS Days
      = max 0 \<lceil>of_int (endD - now) / (86400000 :: real)\<rceil>"
    if "daysComparable tzS tzD now (K * msPerDay)"
  proof -
    from that have "c = 0" by (simp only: cmp)
    then show ?thesis unfolding share dash by simp
  qed
  show "daysComparable tzS tzD now (K * msPerDay)"
    if "Day (LocalTime tzS now) < K"
      and "calculateTimeLeft tzS now endS Days
        = max 0 \<lceil>of_int (endD - now) / (86400000 :: real)\<rceil>"
  proof -
    have "max 0 (K - Day x) = max 0 (K - Day x + c)"
      using that(2) by (simp only: share dash)
    moreover have "0 < K - Day x"
      using that(1) by (simp add: x_def)
    ultimately have "c = 0" by linarith
    then show ?thesis by (simp add: cmp)
  qed
qed

lemma fixedZone_bounded: "zoneBounded (fixedZone 0)" "zoneBounded (fixedZone (- 14400000))"
  by (simp_all add: zoneBounded_def fixedZone_def msPerDay_def)

lemma MakeDate_values:
  "MakeDay 2027 5 25 = 20994"
  "MakeDay 2026 1 2 = 20486"
  "MakeDate (MakeDay 2027 5 25) 0 = 20994 * msPerDay"
  "MakeDate (MakeDay 2026 1 2) 0 = 20486 * msPerDay"
  by (simp_all add: MakeDate_def MakeDay_def DayFromYear_def DaysBeforeMonth_def DaysInYear_def)

lemma new_Date_midnight:
  "new_Date tz 2027 5 25 0 0 = 20994 * msPerDay - tz (20994 * msPerDay) False"
  "new_Date tz 2026 1 2 0 0 = 20486 * msPerDay - tz (20486 * msPerDay) False"
  by (simp_all add: new_Date_values msPerDay_def)

lemma school_page:
  "SharePage tz now ''school'' ''days'' =
     Inr \<lparr>view_title = ''High school'',
          view_percent = calculateProgress now (new_Date tz 2023 8 5 0 0) (new_Date tz 2027 5 25 0 0),
          view_start = new_Date tz 2023 8 5 0 0, view_end = new_Date tz 2027 5 25 0 0,
          view_timeLeft = calculateTimeLeft tz now (new_Date tz 2027 5 25 0 0) Days,
          view_unit = ''days''\<rparr>"
  by (simp add: SharePage_def items_def school_def unitOf_def titleOf_def)

lemma semester_page:
  "SharePage tz now ''semester'' ''days'' =
     Inr \<lparr>view_title = ''Semester'',
          view_percent = calculateProgress now (range_start (semester_getRange tz now))
            (range_end (semester_getRange tz now)),
          view_start = range_start (semester_getRange tz now),
          view_end = range_end (semester_getRange tz now),
          view_timeLeft = calculateTimeLeft tz now (range_end (semester_getRange tz now)) Days,
          view_unit = ''days''\<rparr>"
  by (simp add: SharePage_def items_def semester_def unitOf_def titleOf_def Let_def)

lemma dashboard_ordered:
  assumes "zoneBounded tz"
  shows "new_Date tz 2023 8 5 0 0 < new_Date tz 2027 5 25 0 0"
    and "new_Date tz 2025 8 2 0 0 < new_Date tz 2026 1 2 0 0"
  unfolding new_Date_values
  using zoneBoundedD [OF assms, of 1693872000000 False]
    zoneBoundedD [OF assms, of 1813881600000 False]
    zoneBoundedD [OF assms, of 1756771200000 False]
    zoneBoundedD [OF assms, of 1769990400000 False]
  by linarith+

text \<open>
  With the host of the share page on UTC and the browser four hours behind it, on 1 March
  2026 at 00:00 UTC the share page counts 481 days to the end of high school and the
  dashboard 482: the host's time of day is less than the four hours between the offsets.
\<close>

lemma high_school_days_across_zones:
  "view_timeLeft (projr (SharePage (fixedZone 0) 1772323200000 ''school'' ''days'')) = 481"
  "card_daysLeft (ProgressBar (items_dashboard (fixedZone (- 14400000)) ! 2) 1772323200000) = 482"
  "\<not> daysComparable (fixedZone 0) (fixedZone (- 14400000)) 1772323200000
       (MakeDate (MakeDay 2027 5 25) 0)"
proof -
  show "view_timeLeft (projr (SharePage (fixedZone 0) 1772323200000 ''school'' ''days'')) = 481"
    by (simp add: school_page new_Date_values calculateTimeLeft_def calculateDateDiffInDays_def
        calendar_defs fixedZone_def MS_PER_DAY_def Math_round_def)
  show "card_daysLeft (ProgressBar (items_dashboard (fixedZone (- 14400000)) ! 2) 1772323200000)
      = 482"
    by (simp add: ProgressBar_daysLeft items_dashboard_def new_Date_values fixedZone_def
        normalizeRange_def)
  show "\<not> daysComparable (fixedZone 0) (fixedZone (- 14400000)) 1772323200000
       (MakeDate (MakeDay 2027 5 25) 0)"
    by (simp add: daysComparable_def Let_def TimeWithinDay_def LocalTime_def fixedZone_def
        msPerDay_def MakeDate_values)
qed

text \<open>
  In the same two zones, on 2 March 2026 at 03:26:40 UTC, the share page shows 65.5
  percent for the high school and the dashboard 65.4: the browser starts and ends the
  range four hours later than the host.
\<close>

lemma high_school_percent_across_zones:
  "view_percent (projr (SharePage (fixedZone 0) 1772422000000 ''school'' ''days''))
     = Some (131 / 2)"
  "card_percent (ProgressBar (items_dashboard (fixedZone (- 14400000)) ! 2) 1772422000000)
     = Some (binary64 (327 / 5))"
  "binary64 (327 / 5) < 131 / 2"
proof -
  have r1: "clampedRatio 1772422000000 1693872000000 1813881600000 = 78550000 / 120009600"
    by (simp add: clampedRatio_def)
  have "\<not> nearMidpoint (1000 * clampedRatio 1772422000000 1693872000000 1813881600000)"
    by (simp add: r1 nearMidpoint_def Let_def)
  then have "calculateProgress 1772422000000 1693872000000 1813881600000
      = Some (binary64 (percentComplete 1772422000000 1693872000000 1813881600000))"
    by (intro calculateProgress_exact) simp_all
  moreover have "binary64 (131 / 2) = 131 / 2"
    using binary64_representable [of 131 "- 1"] by simp
  ultimately have p1: "calculateProgress 1772422000000 1693872000000 1813881600000
      = Some (131 / 2)"
    by (simp add: percentComplete_def roundOneDecimal_def r1)
  show "view_percent (projr (SharePage (fixedZone 0) 1772422000000 ''school'' ''days''))
     = Some (131 / 2)"
    by (simp add: school_page new_Date_values fixedZone_apply p1)
  have r2: "clampedRatio 1772422000000 1693886400000 1813896000000 = 78535600 / 120009600"
    by (simp add: clampedRatio_def)
  have "\<not> nearMidpoint (1000 * clampedRatio 1772422000000 1693886400000 1813896000000)"
    by (simp add: r2 nearMidpoint_def Let_def)
  then have "calculateProgress 1772422000000 1693886400000 1813896000000
      = Some (binary64 (percentComplete 1772422000000 1693886400000 1813896000000))"
    by (intro calculateProgress_exact) simp_all
  then have p2: "calculateProgress 1772422000000 1693886400000 1813896000000
      = Some (binary64 (327 / 5))"
    by (simp add: percentComplete_def roundOneDecimal_def r2)
  show "card_percent (ProgressBar (items_dashboard (fixedZone (- 14400000)) ! 2) 1772422000000)
     = Some (binary64 (327 / 5))"
    by (simp add: ProgressBar_percent items_dashboard_def new_Date_values fixedZone_apply
        normalizeRange_def p2)
  have "binary64 (327 / 5) \<le> binary64 (1047 / 16)"
    by (rule binary64_mono) simp_all
  moreover have "binary64 (1047 / 16) = 1047 / 16"
    using binary64_representable [of 1047 "- 4"] by simp
  ultimately show "binary64 (327 / 5) < 131 / 2"
    by simp
qed

text \<open>
  Percentages of the examples below, none of them at a tie.
\<close>

lemma percent_examples:
  "calculateProgress 1753747200000 1750723200000 1756771200000 = Some 50"
  "calculateProgress 1772323200000 1693872000000 1813881600000 = Some (binary64 (327 / 5))"
  "calculateProgress 1772323200000 1770032700000 1782259200000 = Some (binary64 (187 / 10))"
  "calculateProgress 1772323200000 1756771200000 1769990400000 = Some 100"
proof -
  have r1: "clampedRatio 1753747200000 1750723200000 1756771200000 = 1 / 2"
    by (simp add: clampedRatio_def)
  have "\<not> nearMidpoint (1000 * clampedRatio 1753747200000 1750723200000 1756771200000)"
    by (simp add: r1 nearMidpoint_def Let_def)
  then have "calculateProgress 1753747200000 1750723200000 1756771200000
      = Some (binary64 (percentComplete 1753747200000 1750723200000 1756771200000))"
    by (intro calculateProgress_exact) simp_all
  then show "calculateProgress 1753747200000 1750723200000 1756771200000 = Some 50"
    using binary64_of_int [of 50] by (simp add: percentComplete_def roundOneDecimal_def r1)
  have r2: "clampedRatio 1772323200000 1693872000000 1813881600000 = 908 / 1389"
    by (simp add: clampedRatio_def)
  have "\<not> nearMidpoint (1000 * clampedRatio 1772323200000 1693872000000 1813881600000)"
    by (simp add: r2 nearMidpoint_def Let_def)
  then have "calculateProgress 1772323200000 1693872000000 1813881600000
      = Some (binary64 (percentComplete 1772323200000 1693872000000 1813881600000))"
    by (intro calculateProgress_exact) simp_all
  then show "calculateProgress 1772323200000 1693872000000 1813881600000
      = Some (binary64 (327 / 5))"
    by (simp add: percentComplete_def roundOneDecimal_def r2)
  have r3: "clampedRatio 1772323200000 1770032700000 1782259200000 = 22905 / 122265"
    by (simp add: clampedRatio_def)
  have "\<not> nearMidpoint (1000 * clampedRatio 1772323200000 1770032700000 1782259200000)"
    by (simp add: r3 nearMidpoint_def Let_def)
  then have "calculateProgress 1772323200000 1770032700000 1782259200000
      = Some (binary64 (percentComplete 1772323200000 1770032700000 1782259200000))"
    by (intro calculateProgress_exact) simp_all
  then show "calculateProgress 1772323200000 1770032700000 1782259200000
      = Some (binary64 (187 / 10))"
    by (simp add: percentComplete_def roundOneDecimal_def r3)
  show "calculateProgress 1772323200000 1756771200000 1769990400000 = Some 100"
    by (simp add: calculateProgress_eq clampedRatio_def binary64_values roundedPercent_1)
qed

section \<open>The claims\<close>

text \<open>
  Claim C1 as stated fails where a thousand times the ratio is a midpoint between two
  integers. On the share page's school year, at 1769527944000, the ratio is 0.5005: to
  one decimal place the percentage is 50.1, and the code returns 50.
\<close>

theorem percent_rounds_tie_down:
  "clampedRatio 1769527944000 1756771200000 1782259200000 = 1001 / 2000
   \<and> percentComplete 1769527944000 1756771200000 1782259200000 = 501 / 10
   \<and> calculateProgress 1769527944000 1756771200000 1782259200000 = Some 50"
proof -
  have r: "clampedRatio 1769527944000 1756771200000 1782259200000 = 1001 / 2000"
    by (simp add: clampedRatio_def)
  have p: "percentComplete 1769527944000 1756771200000 1782259200000 = 501 / 10"
    by (simp add: percentComplete_def roundOneDecimal_def r)
  have "roundedPercent (binary64 (1001 / 2000)) = binary64 (of_int 50)"
    by (simp add: roundedPercent_def tie_example)
  then have "calculateProgress 1769527944000 1756771200000 1782259200000 = Some 50"
    using binary64_of_int [of 50] by (simp add: calculateProgress_eq r)
  then show ?thesis using r p by simp
qed

text \<open>
  Claim C1, amended. For every range with \<open>start \<le> end\<close> and every instant \<open>now\<close>, the
  percentage that the share page (\<open>calculateProgress\<close>) and the dashboard
  (\<open>ProgressBar\<close>) compute is the binary64 number nearest to \<open>k / 10\<close> for an integer
  \<open>k\<close> from 0 to 1000; it lies between 0 and 100, and \<open>k / 10\<close> is within
  \<open>1 / 20 + 2\<^sup>-\<^sup>4\<^sup>5\<close> of the exact percentage of the ratio of elapsed to total
  time, with \<open>now\<close> clamped into the range. Unless a thousand times that ratio is
  near a midpoint, \<open>k / 10\<close> is the exact percentage rounded to one decimal place. For
  a range that is not empty the percentage is 0 before the start and 100 after the end.
\<close>

theorem percent_near_clamped_ratio:
  "start \<le> end \<Longrightarrow>
     (\<exists>k. calculateProgress now start end = Some (binary64 (of_int k / 10))
        \<and> card_percent (ProgressBar
              \<lparr>pi_id = i, pi_title = t, pi_start = start, pi_end = end, pi_accent = a\<rparr> now)
            = Some (binary64 (of_int k / 10))
        \<and> 0 \<le> k \<and> k \<le> 1000
        \<and> \<bar>of_int k / 10 - 100 * clampedRatio now start end\<bar> \<le> 1 / 20 + 1 / 2 ^ 45
        \<and> 0 \<le> binary64 (of_int k / 10) \<and> binary64 (of_int k / 10) \<le> 100
        \<and> (\<not> nearMidpoint (1000 * clampedRatio now start end) \<longrightarrow>
             of_int k / 10 = percentComplete now start end))
     \<and> (start < end \<and> now < start \<longrightarrow> calculateProgress now start end = Some 0)
     \<and> (start < end \<and> end < now \<longrightarrow> calculateProgress now start end = Some 100)"
proof -
  assume le: "start \<le> end"
  note t = calculateProgress_tenths [OF le, of now]
  have d: "card_percent (ProgressBar
           \<lparr>pi_id = i, pi_title = t, pi_start = start, pi_end = end, pi_accent = a\<rparr> now)
         = calculateProgress now start end"
    by (simp add: ProgressBar_percent normalizeRange_id [OF le])
  have lo: "calculateProgress now start end = Some 0" if "start < end" "now < start"
    using that by (simp add: calculateProgress_eq [OF le] clampedRatio_def binary64_values
        roundedPercent_0)
  have hi: "calculateProgress now start end = Some 100" if "start < end" "end < now"
    using that by (simp add: calculateProgress_eq [OF le] clampedRatio_def binary64_values
        roundedPercent_1)
  show ?thesis
    using t lo hi unfolding d by blast
qed

text \<open>
  The example of the specification: the range from 2 September 2025 to 24 June 2026 and
  the instant 2 January 2026, 11:45 (all UTC) give 41.5; an instant before the range
  gives 0 and one after it 100.
\<close>

theorem percent_near_clamped_ratio_witness:
  "calculateProgress 1767354300000 1756771200000 1782259200000 = Some (83 / 2)
   \<and> percentComplete 1767354300000 1756771200000 1782259200000 = 83 / 2
   \<and> calculateProgress 0 1756771200000 1782259200000 = Some 0
   \<and> calculateProgress 1782259200001 1756771200000 1782259200000 = Some 100"
proof -
  have le: "(1756771200000 :: int) \<le> 1782259200000" by simp
  have r: "clampedRatio 1767354300000 1756771200000 1782259200000 = 117590 / 283200"
    by (simp add: clampedRatio_def)
  have m: "\<not> nearMidpoint (1000 * clampedRatio 1767354300000 1756771200000 1782259200000)"
    by (simp add: r nearMidpoint_def Let_def)
  have p: "percentComplete 1767354300000 1756771200000 1782259200000 = 83 / 2"
    by (simp add: percentComplete_def roundOneDecimal_def r)
  have b: "binary64 (83 / 2) = 83 / 2"
    using binary64_representable [of 83 "- 1"] by simp
  from percent_near_clamped_ratio [OF le, of 1767354300000 "[]" "[]" "[]"]
  obtain k where k: "calculateProgress 1767354300000 1756771200000 1782259200000
        = Some (binary64 (of_int k / 10))"
    and e: "\<not> nearMidpoint (1000 * clampedRatio 1767354300000 1756771200000 1782259200000) \<longrightarrow>
        of_int k / 10 = percentComplete 1767354300000 1756771200000 1782259200000"
    by blast
  have "calculateProgress 1767354300000 1756771200000 1782259200000 = Some (83 / 2)"
    using k e m by (simp add: p b)
  then show ?thesis
    using p percent_near_clamped_ratio [OF le, of 0 "[]" "[]" "[]"]
      percent_near_clamped_ratio [OF le, of 1782259200001 "[]" "[]" "[]"]
    by simp
qed

text \<open>
  Claim C2 as stated fails for a local year from 0 to 99, which \<open>Date.UTC\<close> reads as
  1900 plus that year. From 31 December of the year 99 to 1 January of the year 100 (zone
  without offset) there is one calendar day; the date-only instant of the former is 31
  December 1999, after that of the latter, and the code returns 0.
\<close>

theorem days_across_two_digit_year:
  "getFullYear (fixedZone 0) (- 59011545600000) = 99
   \<and> getMonth (fixedZone 0) (- 59011545600000) = 11
   \<and> getDate (fixedZone 0) (- 59011545600000) = 31
   \<and> getFullYear (fixedZone 0) (- 59011459200000) = 100
   \<and> getMonth (fixedZone 0) (- 59011459200000) = 0
   \<and> getDate (fixedZone 0) (- 59011459200000) = 1
   \<and> Day (LocalTime (fixedZone 0) (- 59011459200000))
        - Day (LocalTime (fixedZone 0) (- 59011545600000)) = 1
   \<and> dateOnly (fixedZone 0) (- 59011545600000) = 946598400000
   \<and> dateOnly (fixedZone 0) (- 59011459200000) = - 59011459200000
   \<and> calculateTimeLeft (fixedZone 0) (- 59011545600000) (- 59011459200000) Days = 0"
  by (simp add: calculateTimeLeft_def calculateDateDiffInDays_def dateOnly_def calendar_defs
      fixedZone_def MS_PER_DAY_def Math_round_def)

text \<open>
  Claim C2, amended. When the local years of \<open>end\<close> and of \<open>now\<close> are read in full
  (neither is a year from 0 to 99), the date-only instant of each is the start of its
  local calendar day, and the remaining days are the difference of the two local day
  numbers, not below 0. The milliseconds between \<open>now\<close> and \<open>end\<close> play no part.
\<close>

theorem days_remaining_by_local_calendar_day:
  "yearReadInFull (LocalTime tz end) \<Longrightarrow> yearReadInFull (LocalTime tz now) \<Longrightarrow>
     dateOnly tz end = MS_PER_DAY * Day (LocalTime tz end)
     \<and> dateOnly tz now = MS_PER_DAY * Day (LocalTime tz now)
     \<and> calculateTimeLeft tz now end Days
          = max 0 (Day (LocalTime tz end) - Day (LocalTime tz now))"
proof -
  assume e: "yearReadInFull (LocalTime tz end)" and n: "yearReadInFull (LocalTime tz now)"
  have ye: "getFullYear tz end < 0 \<or> 99 < getFullYear tz end"
    using e by (simp add: yearReadInFull_iff getFullYear_def)
  have yn: "getFullYear tz now < 0 \<or> 99 < getFullYear tz now"
    using n by (simp add: yearReadInFull_iff getFullYear_def)
  show ?thesis
    using dateOnly_local_day [OF ye] dateOnly_local_day [OF yn] calendar_days_left [OF ye yn]
    by simp
qed

text \<open>
  The example of the specification: one minute before the midnight that starts 24 June
  2026, one day is left, though the milliseconds left round to 0 days. From 1 March 2026
  to 25 June 2027 there are 481 days. In a zone one hour ahead of UTC the two instants of
  the example are on the same local day, and no day is left; nor is one left when
  \<open>end\<close> is before \<open>now\<close>.
\<close>

theorem days_remaining_by_local_calendar_day_witness:
  "calculateTimeLeft (fixedZone 0) (new_Date (fixedZone 0) 2026 5 23 23 59)
       (new_Date (fixedZone 0) 2026 5 24 0 0) Days = 1
   \<and> Math_round (of_int (new_Date (fixedZone 0) 2026 5 24 0 0
          - new_Date (fixedZone 0) 2026 5 23 23 59) / of_int MS_PER_DAY) = 0
   \<and> calculateTimeLeft (fixedZone 0) (new_Date (fixedZone 0) 2026 2 1 0 0)
       (new_Date (fixedZone 0) 2027 5 25 0 0) Days = 481
   \<and> dateOnly (fixedZone 0) (new_Date (fixedZone 0) 2026 5 23 23 59) = 1782172800000
   \<and> calculateTimeLeft (fixedZone 3600000) 1782259140000 1782259200000 Days = 0
   \<and> calculateTimeLeft (fixedZone 0) 1782259200000 1782259140000 Days = 0"
proof -
  have e: "new_Date (fixedZone 0) 2026 5 24 0 0 = 1782259200000"
    "new_Date (fixedZone 0) 2027 5 25 0 0 = 1813881600000"
    by (simp_all add: new_Date_values fixedZone_def)
  have n: "new_Date (fixedZone 0) 2026 5 23 23 59 = 1782259140000"
    "new_Date (fixedZone 0) 2026 2 1 0 0 = 1772323200000"
    by (simp_all add: new_Date_def UTC_def MakeDate_def MakeDay_def MakeTime_def fullYear_def
      DayFromYear_def DaysBeforeMonth_def DaysInYear_def msPerDay_def fixedZone_def)
  have y: "yearReadInFull (LocalTime (fixedZone 0) 1782259200000)"
    "yearReadInFull (LocalTime (fixedZone 0) 1782259140000)"
    "yearReadInFull (LocalTime (fixedZone 0) 1813881600000)"
    "yearReadInFull (LocalTime (fixedZone 0) 1772323200000)"
    "yearReadInFull (LocalTime (fixedZone 3600000) 1782259200000)"
    "yearReadInFull (LocalTime (fixedZone 3600000) 1782259140000)"
    by (simp_all add: yearReadInFull_def LocalTime_def fixedZone_def Day_def msPerDay_def
        DayFromYear_def)
  show ?thesis
    using days_remaining_by_local_calendar_day [OF y(1) y(2)]
      days_remaining_by_local_calendar_day [OF y(3) y(4)]
      days_remaining_by_local_calendar_day [OF y(5) y(6)]
      days_remaining_by_local_calendar_day [OF y(2) y(1)]
    unfolding e n
    by (simp add: LocalTime_def fixedZone_def Day_def msPerDay_def MS_PER_DAY_def Math_round_def)
qed

text \<open>
  Claim C3. The semester of the share page resolves to the range from the start of term
  to the cutoff at every instant before the cutoff, and to the range from the cutoff to
  the end of term from the cutoff on. The end of the first range is the start of the
  second.
\<close>

theorem semester_range_switches_at_cutoff:
  "items tz ''semester'' = Some (Registered (semester tz))
   \<and> (now < cutoff tz \<longrightarrow>
        resolveRange now (Registered (semester tz)) = (Some (termStart tz), Some (cutoff tz)))
   \<and> (cutoff tz \<le> now \<longrightarrow>
        resolveRange now (Registered (semester tz)) = (Some (cutoff tz), Some (termEnd tz)))
   \<and> (before < cutoff tz \<and> cutoff tz \<le> after \<longrightarrow>
        snd (resolveRange before (Registered (semester tz)))
          = fst (resolveRange after (Registered (semester tz))))"
  by (simp add: items_def semester_def semester_getRange_def cutoff_def termStart_def
      termEnd_def Let_def)

text \<open>
  In a zone without offset the cutoff is 1770032700000: one millisecond earlier the
  first range is returned, at the cutoff the second.
\<close>

theorem semester_range_switches_at_cutoff_witness:
  "resolveRange 1770032699999 (Registered (semester (fixedZone 0)))
     = (Some 1756771200000, Some 1770032700000)
   \<and> resolveRange 1770032700000 (Registered (semester (fixedZone 0)))
     = (Some 1770032700000, Some 1782259200000)"
  using semester_range_switches_at_cutoff [of "fixedZone 0" 1770032699999 0 0]
    semester_range_switches_at_cutoff [of "fixedZone 0" 1770032700000 0 0]
  by (simp add: cutoff_def termStart_def termEnd_def new_Date_values fixedZone_def)

text \<open>
  Claim C4, at an input where the code departs from it. The target \<open>constructor\<close> is
  not an entry of the registry, yet the lookup \<open>items[target]\<close> finds the property the
  object inherits: the check lets the request pass, the range has no bounds, and both
  entry points throw a \<open>TypeError\<close> where the claim has them report not-found.
\<close>

theorem inherited_key_is_not_reported_not_found:
  "items tz ''constructor'' = Some Inherited
   \<and> generateMetadata tz now ''constructor'' ''days'' = Inl TypeError
   \<and> SharePage tz now ''constructor'' ''days'' = Inl TypeError"
  by (simp add: generateMetadata_def SharePage_def items_def unitOf_def Object_prototype_keys_def)

text \<open>
  Claim C5 as stated fails for the semester. On 1 March 2026, both surfaces being in a
  zone without offset, the share page is in the second range of the semester and shows
  18.7 percent (the binary64 number nearest to it) and 115 days; the dashboard, whose
  semester ended on 2 February, shows 100 percent and 0 days.
\<close>

theorem semester_differs_between_surfaces:
  "SharePage (fixedZone 0) 1772323200000 ''semester'' ''days''
     = Inr \<lparr>view_title = ''Semester'', view_percent = Some (binary64 (187 / 10)),
            view_start = 1770032700000, view_end = 1782259200000, view_timeLeft = 115,
            view_unit = ''days''\<rparr>
   \<and> ProgressBar (items_dashboard (fixedZone 0) ! 0) 1772323200000
     = \<lparr>card_title = ''Semester progress'', card_percent = Some 100,
        card_start = 1756771200000, card_end = 1769990400000, card_daysLeft = 0\<rparr>
   \<and> binary64 (187 / 10) \<le> 19"
proof -
  have t: "calculateTimeLeft (fixedZone 0) 1772323200000 1782259200000 Days = 115"
    by (simp add: calculateTimeLeft_def calculateDateDiffInDays_def calendar_defs fixedZone_def
        MS_PER_DAY_def Math_round_def)
  have s: "SharePage (fixedZone 0) 1772323200000 ''semester'' ''days''
     = Inr \<lparr>view_title = ''Semester'', view_percent = Some (binary64 (187 / 10)),
            view_start = 1770032700000, view_end = 1782259200000, view_timeLeft = 115,
            view_unit = ''days''\<rparr>"
    using t
    by (simp add: semester_page semester_getRange_def new_Date_values fixedZone_def Let_def
        percent_examples)
  have n: "normalizeRange 1756771200000 1769990400000
      = \<lparr>range_start = 1756771200000, range_end = 1769990400000\<rparr>"
    by (simp add: normalizeRange_def)
  have i: "items_dashboard (fixedZone 0) ! 0 =
      \<lparr>pi_id = ''semester'', pi_title = ''Semester progress'', pi_start = 1756771200000,
       pi_end = 1769990400000, pi_accent = ''var(--accent-lilac)''\<rparr>"
    by (simp add: items_dashboard_def new_Date_values fixedZone_def)
  have p: "card_percent (ProgressBar (items_dashboard (fixedZone 0) ! 0) 1772323200000) = Some 100"
    by (simp add: ProgressBar_percent i n percent_examples)
  have d: "card_daysLeft (ProgressBar (items_dashboard (fixedZone 0) ! 0) 1772323200000) = 0"
    by (simp add: ProgressBar_daysLeft i n)
  have o: "card_title (ProgressBar (items_dashboard (fixedZone 0) ! 0) 1772323200000)
        = ''Semester progress''"
    "card_start (ProgressBar (items_dashboard (fixedZone 0) ! 0) 1772323200000) = 1756771200000"
    "card_end (ProgressBar (items_dashboard (fixedZone 0) ! 0) 1772323200000) = 1769990400000"
    by (simp_all add: ProgressBar_def Let_def i)
  have b: "ProgressBar (items_dashboard (fixedZone 0) ! 0) 1772323200000
     = \<lparr>card_title = ''Semester progress'', card_percent = Some 100,
        card_start = 1756771200000, card_end = 1769990400000, card_daysLeft = 0\<rparr>"
    using p d o by (cases "ProgressBar (items_dashboard (fixedZone 0) ! 0) 1772323200000") simp
  have "binary64 (187 / 10) \<le> binary64 19"
    by (rule binary64_mono) simp_all
  then have c: "binary64 (187 / 10) \<le> 19"
    using binary64_of_int [of 19] by simp
  show ?thesis
    using s b c by simp
qed

text \<open>
  Claim C5, amended. The share page is rendered on a host with the zone \<open>tzS\<close>, the
  dashboard in a browser with the zone \<open>tzD\<close>, whose offsets are less than a day. For
  the high school (target \<open>school\<close>, entry \<open>high-school\<close>): when the two zones give the
  range the same start and the same end, both surfaces show the same percentage at every
  instant; and both show the same days left at every instant \<open>now\<close> whose local year on
  the host is read in full, when the host places the end of the range on 25 June 2027 and
  the two counts of days can be compared at \<open>now\<close>. For the semester, before the
  cutoff, both show the same days left under the same conditions, the host placing the
  cutoff on 2 February 2026. With one zone for both surfaces the ranges are the same, and
  with one offset for both, at all times, the counts can be compared at every instant.
  Before the local day of the end the condition on the counts is necessary as well
  (\<open>days_compared\<close>). Nothing is said of the percentage of the semester, of its days
  left from the cutoff on, or of the school year.
\<close>

theorem surfaces_agree_where_comparable:
  "zoneBounded tzD \<Longrightarrow>
     (\<exists>v. SharePage tzS now ''school'' ''days'' = Inr v
        \<and> pi_id (items_dashboard tzD ! 2) = ''high-school''
        \<and> (view_start v = pi_start (items_dashboard tzD ! 2)
              \<and> view_end v = pi_end (items_dashboard tzD ! 2) \<longrightarrow>
            view_percent v = card_percent (ProgressBar (items_dashboard tzD ! 2) now))
        \<and> (Day (LocalTime tzS (view_end v)) = MakeDay 2027 5 25
              \<and> yearReadInFull (LocalTime tzS now)
              \<and> daysComparable tzS tzD now (MakeDate (MakeDay 2027 5 25) 0) \<longrightarrow>
            view_timeLeft v = card_daysLeft (ProgressBar (items_dashboard tzD ! 2) now)))
     \<and> (\<exists>v. SharePage tzS now ''semester'' ''days'' = Inr v
        \<and> pi_id (items_dashboard tzD ! 0) = ''semester''
        \<and> (now < cutoff tzS
              \<and> Day (LocalTime tzS (cutoff tzS)) = MakeDay 2026 1 2
              \<and> yearReadInFull (LocalTime tzS now)
              \<and> daysComparable tzS tzD now (MakeDate (MakeDay 2026 1 2) 0) \<longrightarrow>
            view_timeLeft v = card_daysLeft (ProgressBar (items_dashboard tzD ! 0) now)))"
proof -
  assume z: "zoneBounded tzD"
  define sD where "sD = new_Date tzD 2023 8 5 0 0"
  define eD where "eD = new_Date tzD 2027 5 25 0 0"
  define eS where "eS = new_Date tzS 2027 5 25 0 0"
  have item2: "items_dashboard tzD ! 2 =
      \<lparr>pi_id = ''high-school'', pi_title = ''High school progress'', pi_start = sD, pi_end = eD,
       pi_accent = ''var(--accent-mint)''\<rparr>"
    by (simp add: items_dashboard_def sD_def eD_def)
  have n2: "normalizeRange sD eD = \<lparr>range_start = sD, range_end = eD\<rparr>"
    using dashboard_ordered(1) [OF z] by (simp add: normalizeRange_def sD_def eD_def)
  have pct: "calculateProgress now (new_Date tzS 2023 8 5 0 0) eS
      = card_percent (ProgressBar (items_dashboard tzD ! 2) now)"
    if "new_Date tzS 2023 8 5 0 0 = sD" and "eS = eD"
    using that by (simp add: item2 ProgressBar_percent n2)
  have days2: "calculateTimeLeft tzS now eS Days
      = card_daysLeft (ProgressBar (items_dashboard tzD ! 2) now)"
    if k: "Day (LocalTime tzS eS) = MakeDay 2027 5 25"
      and y: "yearReadInFull (LocalTime tzS now)"
      and c: "daysComparable tzS tzD now (MakeDate (MakeDay 2027 5 25) 0)"
  proof -
    have k': "Day (LocalTime tzS eS) = 20994"
      using k by (simp only: MakeDate_values(1,2))
    have "calculateTimeLeft tzS now eS Days = max 0 \<lceil>of_int (eD - now) / (86400000 :: real)\<rceil>"
    proof (rule days_compared(1) [OF k' _ y])
      show "yearReadInFull (LocalTime tzS eS)"
        by (rule yearReadInFull_day) (simp add: k')
      show "eD = 20994 * msPerDay - tzD (20994 * msPerDay) False"
        unfolding eD_def by (rule new_Date_midnight)
      show "daysComparable tzS tzD now (20994 * msPerDay)"
        using c by (simp only: MakeDate_values(3))
    qed
    then show ?thesis
      by (simp add: ProgressBar_daysLeft item2 n2)
  qed
  define sM where "sM = new_Date tzD 2025 8 2 0 0"
  define eM where "eM = new_Date tzD 2026 1 2 0 0"
  define eC where "eC = cutoff tzS"
  have item0: "items_dashboard tzD ! 0 =
      \<lparr>pi_id = ''semester'', pi_title = ''Semester progress'', pi_start = sM, pi_end = eM,
       pi_accent = ''var(--accent-lilac)''\<rparr>"
    by (simp add: items_dashboard_def sM_def eM_def)
  have n0: "normalizeRange sM eM = \<lparr>range_start = sM, range_end = eM\<rparr>"
    using dashboard_ordered(2) [OF z] by (simp add: normalizeRange_def sM_def eM_def)
  have days0: "calculateTimeLeft tzS now eC Days
      = card_daysLeft (ProgressBar (items_dashboard tzD ! 0) now)"
    if k: "Day (LocalTime tzS eC) = MakeDay 2026 1 2"
      and y: "yearReadInFull (LocalTime tzS now)"
      and c: "daysComparable tzS tzD now (MakeDate (MakeDay 2026 1 2) 0)"
  proof -
    have k': "Day (LocalTime tzS eC) = 20486"
      using k by (simp only: MakeDate_values(1,2))
    have "calculateTimeLeft tzS now eC Days = max 0 \<lceil>of_int (eM - now) / (86400000 :: real)\<rceil>"
    proof (rule days_compared(1) [OF k' _ y])
      show "yearReadInFull (LocalTime tzS eC)"
        by (rule yearReadInFull_day) (simp add: k')
      show "eM = 20486 * msPerDay - tzD (20486 * msPerDay) False"
        unfolding eM_def by (rule new_Date_midnight)
      show "daysComparable tzS tzD now (20486 * msPerDay)"
        using c by (simp only: MakeDate_values(4))
    qed
    then show ?thesis
      by (simp add: ProgressBar_daysLeft item0 n0)
  qed
  have school: "\<exists>v. SharePage tzS now ''school'' ''days'' = Inr v
        \<and> pi_id (items_dashboard tzD ! 2) = ''high-school''
        \<and> (view_start v = pi_start (items_dashboard tzD ! 2)
              \<and> view_end v = pi_end (items_dashboard tzD ! 2) \<longrightarrow>
            view_percent v = card_percent (ProgressBar (items_dashboard tzD ! 2) now))
        \<and> (Day (LocalTime tzS (view_end v)) = MakeDay 2027 5 25
              \<and> yearReadInFull (LocalTime tzS now)
              \<and> daysComparable tzS tzD now (MakeDate (MakeDay 2027 5 25) 0) \<longrightarrow>
            view_timeLeft v = card_daysLeft (ProgressBar (items_dashboard tzD ! 2) now))"
    unfolding school_page
    using pct days2 by (simp add: item2 eS_def)
  have semester: "\<exists>v. SharePage tzS now ''semester'' ''days'' = Inr v
        \<and> pi_id (items_dashboard tzD ! 0) = ''semester''
        \<and> (now < cutoff tzS
              \<and> Day (LocalTime tzS (cutoff tzS)) = MakeDay 2026 1 2
              \<and> yearReadInFull (LocalTime tzS now)
              \<and> daysComparable tzS tzD now (MakeDate (MakeDay 2026 1 2) 0) \<longrightarrow>
            view_timeLeft v = card_daysLeft (ProgressBar (items_dashboard tzD ! 0) now))"
    unfolding semester_page
    using days0 by (simp add: item0 eC_def semester_getRange_def cutoff_def Let_def)
  show ?thesis
    using school semester by (rule conjI)
qed

text \<open>
  Both surfaces in a zone without offset: on 1 March 2026, 65.4 percent (the binary64
  number nearest to it) and 481 days for the high school on both; on 1 January 2026, 32
  days for the semester on both. The host on UTC and the browser four hours behind it, on
  1 March 2026 at noon UTC: 481 days for the high school on both.
\<close>

theorem surfaces_agree_where_comparable_witness:
  "zoneBounded (fixedZone 0) \<and> zoneBounded (fixedZone (- 14400000))
   \<and> (\<exists>v. SharePage (fixedZone 0) 1772323200000 ''school'' ''days'' = Inr v
        \<and> view_percent v = Some (binary64 (327 / 5))
        \<and> card_percent (ProgressBar (items_dashboard (fixedZone 0) ! 2) 1772323200000)
            = Some (binary64 (327 / 5))
        \<and> view_timeLeft v = 481
        \<and> card_daysLeft (ProgressBar (items_dashboard (fixedZone 0) ! 2) 1772323200000) = 481)
   \<and> (\<exists>v. SharePage (fixedZone 0) 1767225600000 ''semester'' ''days'' = Inr v
        \<and> view_timeLeft v = 32
        \<and> card_daysLeft (ProgressBar (items_dashboard (fixedZone 0) ! 0) 1767225600000) = 32)
   \<and> (\<exists>v. SharePage (fixedZone 0) 1772366400000 ''school'' ''days'' = Inr v
        \<and> view_timeLeft v = 481
        \<and> card_daysLeft (ProgressBar (items_dashboard (fixedZone (- 14400000)) ! 2)
            1772366400000) = 481)"
proof -
  note z = fixedZone_bounded
  have i: "items_dashboard (fixedZone 0) ! 2 =
      \<lparr>pi_id = ''high-school'', pi_title = ''High school progress'', pi_start = 1693872000000,
       pi_end = 1813881600000, pi_accent = ''var(--accent-mint)''\<rparr>"
    "items_dashboard (fixedZone (- 14400000)) ! 2 =
      \<lparr>pi_id = ''high-school'', pi_title = ''High school progress'', pi_start = 1693886400000,
       pi_end = 1813896000000, pi_accent = ''var(--accent-mint)''\<rparr>"
    "items_dashboard (fixedZone 0) ! 0 =
      \<lparr>pi_id = ''semester'', pi_title = ''Semester progress'', pi_start = 1756771200000,
       pi_end = 1769990400000, pi_accent = ''var(--accent-lilac)''\<rparr>"
    by (simp_all add: items_dashboard_def new_Date_values fixedZone_def)
  have c: "cutoff (fixedZone 0) = 1770032700000"
    by (simp add: cutoff_def new_Date_values fixedZone_def)
  have p: "card_percent (ProgressBar (items_dashboard (fixedZone 0) ! 2) 1772323200000)
      = Some (binary64 (327 / 5))"
    by (simp add: ProgressBar_percent i normalizeRange_def percent_examples)
  have d: "card_daysLeft (ProgressBar (items_dashboard (fixedZone 0) ! 2) 1772323200000) = 481"
    "card_daysLeft (ProgressBar (items_dashboard (fixedZone 0) ! 0) 1767225600000) = 32"
    "card_daysLeft (ProgressBar (items_dashboard (fixedZone (- 14400000)) ! 2) 1772366400000)
      = 481"
    by (simp_all add: ProgressBar_daysLeft i normalizeRange_def)
  have y: "yearReadInFull (LocalTime (fixedZone 0) 1772323200000)"
    "yearReadInFull (LocalTime (fixedZone 0) 1767225600000)"
    "yearReadInFull (LocalTime (fixedZone 0) 1772366400000)"
    by (simp_all add: yearReadInFull_def LocalTime_def fixedZone_def Day_def msPerDay_def
        DayFromYear_def)
  have m: "daysComparable (fixedZone 0) (fixedZone 0) 1772323200000
        (MakeDate (MakeDay 2027 5 25) 0)"
    "daysComparable (fixedZone 0) (fixedZone 0) 1767225600000 (MakeDate (MakeDay 2026 1 2) 0)"
    "daysComparable (fixedZone 0) (fixedZone (- 14400000)) 1772366400000
        (MakeDate (MakeDay 2027 5 25) 0)"
    by (simp_all add: daysComparable_def Let_def TimeWithinDay_def LocalTime_def fixedZone_def
        msPerDay_def)
  have k: "Day (LocalTime (fixedZone 0) 1813881600000) = MakeDay 2027 5 25"
    "Day (LocalTime (fixedZone 0) 1770032700000) = MakeDay 2026 1 2"
    by (simp_all add: LocalTime_def fixedZone_def Day_def msPerDay_def MakeDate_values)
  have a: "\<exists>v. SharePage (fixedZone 0) 1772323200000 ''school'' ''days'' = Inr v
        \<and> view_percent v = Some (binary64 (327 / 5))
        \<and> card_percent (ProgressBar (items_dashboard (fixedZone 0) ! 2) 1772323200000)
            = Some (binary64 (327 / 5))
        \<and> view_timeLeft v = 481
        \<and> card_daysLeft (ProgressBar (items_dashboard (fixedZone 0) ! 2) 1772323200000) = 481"
    using surfaces_agree_where_comparable [OF z(1), of "fixedZone 0" 1772323200000,
        THEN conjunct1] y(1) m(1) k(1)
    unfolding school_page i
    by (simp add: new_Date_values fixedZone_apply p [unfolded i] d [unfolded i])
  have b: "\<exists>v. SharePage (fixedZone 0) 1767225600000 ''semester'' ''days'' = Inr v
        \<and> view_timeLeft v = 32
        \<and> card_daysLeft (ProgressBar (items_dashboard (fixedZone 0) ! 0) 1767225600000) = 32"
    using surfaces_agree_where_comparable [OF z(1), of "fixedZone 0" 1767225600000,
        THEN conjunct2] y(2) m(2) k(2)
    unfolding semester_page c i
    by (simp add: semester_getRange_def new_Date_values fixedZone_apply d [unfolded i])
  have e: "\<exists>v. SharePage (fixedZone 0) 1772366400000 ''school'' ''days'' = Inr v
        \<and> view_timeLeft v = 481
        \<and> card_daysLeft (ProgressBar (items_dashboard (fixedZone (- 14400000)) ! 2)
            1772366400000) = 481"
    using surfaces_agree_where_comparable [OF z(2), of "fixedZone 0" 1772366400000,
        THEN conjunct1] y(3) m(3) k(1)
    unfolding school_page i
    by (simp add: new_Date_values fixedZone_apply d [unfolded i])
  show ?thesis
    using z a b e by simp
qed

text \<open>
  Claim C6. For a fixed range, the percentage does not decrease as \<open>now\<close> increases
  from \<open>start\<close> to \<open>end\<close>, and stays between 0 and 100, on the share page and on
  the dashboard.
\<close>

theorem percent_monotone_in_now:
  "start \<le> now1 \<Longrightarrow> now1 \<le> now2 \<Longrightarrow> now2 \<le> end \<Longrightarrow>
     (\<exists>p1 p2.
        calculateProgress now1 start end = Some p1
        \<and> calculateProgress now2 start end = Some p2
        \<and> card_percent (ProgressBar
              \<lparr>pi_id = i, pi_title = t, pi_start = start, pi_end = end, pi_accent = a\<rparr> now1)
            = Some p1
        \<and> card_percent (ProgressBar
              \<lparr>pi_id = i, pi_title = t, pi_start = start, pi_end = end, pi_accent = a\<rparr> now2)
            = Some p2
        \<and> 0 \<le> p1 \<and> p1 \<le> p2 \<and> p2 \<le> 100)"
proof -
  assume a: "start \<le> now1" "now1 \<le> now2" "now2 \<le> end"
  then have le: "start \<le> end" by linarith
  define p where "p n = roundedPercent (binary64 (clampedRatio n start end))" for n
  have "binary64 (clampedRatio now1 start end) \<le> binary64 (clampedRatio now2 start end)"
    using clampedRatio_range(1) [OF le] clampedRatio_mono [OF le a(2)] by (rule binary64_mono)
  then have m: "p now1 \<le> p now2"
    unfolding p_def using ratio64_range(1) [OF le] by (intro roundedPercent_mono)
  have c: "calculateProgress n start end = Some (p n)" for n
    by (simp add: p_def calculateProgress_eq [OF le])
  have d: "card_percent (ProgressBar
           \<lparr>pi_id = i, pi_title = t, pi_start = start, pi_end = end, pi_accent = a\<rparr> n)
         = Some (p n)" for n
    by (simp add: ProgressBar_percent normalizeRange_id [OF le] c)
  have "0 \<le> p now1" "p now2 \<le> 100"
    unfolding p_def by (rule roundedPercent_range [OF ratio64_range [OF le]])+
  then show ?thesis
    using m c d by blast
qed

text \<open>
  A quarter and three quarters of the range from 0 to 1000.
\<close>

theorem percent_monotone_in_now_witness:
  "\<exists>p1 p2. calculateProgress 250 0 1000 = Some p1 \<and> calculateProgress 750 0 1000 = Some p2
     \<and> 0 \<le> p1 \<and> p1 \<le> p2 \<and> p2 \<le> 100"
  using percent_monotone_in_now [of 0 250 750 1000 "[]" "[]" "[]"] by auto

text \<open>
  Claim C7. When \<open>end\<close> equals \<open>start\<close> the percentage is 0 at every instant, on
  the share page and on the dashboard: the branch for a total of zero is taken. No range
  at all makes the division undefined.
\<close>

theorem percent_of_empty_range:
  "calculateProgress now s s = Some 0
   \<and> card_percent (ProgressBar
         \<lparr>pi_id = i, pi_title = t, pi_start = s, pi_end = s, pi_accent = a\<rparr> now) = Some 0
   \<and> calculateProgress now start end \<noteq> None
   \<and> card_percent (ProgressBar item now) \<noteq> None"
proof -
  have z: "calculateProgress now s s = Some 0"
    by (simp add: calculateProgress_eq clampedRatio_def binary64_values roundedPercent_0)
  have t: "calculateProgress n x y \<noteq> None" for n x y
    by (simp add: calculateProgress_def js_divide_def Let_def)
  show ?thesis
    using z t by (simp add: ProgressBar_percent normalizeRange_def)
qed

text \<open>
  Claim C8. In hours and in seconds the remaining time is the ceiling of the remaining
  milliseconds divided by the length of the unit, and not below 0. In no unit is it
  negative, also after the end; in hours and seconds it is at least 1 while \<open>now\<close> is
  before the end.
\<close>

theorem remaining_hours_seconds:
  "calculateTimeLeft tz now end Hours = max 0 \<lceil>of_int (end - now) / (3600000 :: real)\<rceil>
   \<and> calculateTimeLeft tz now end Seconds = max 0 \<lceil>of_int (end - now) / (1000 :: real)\<rceil>
   \<and> 0 \<le> calculateTimeLeft tz now end unit
   \<and> (now < end \<longrightarrow>
        1 \<le> calculateTimeLeft tz now end Hours \<and> 1 \<le> calculateTimeLeft tz now end Seconds)"
proof -
  have h: "calculateTimeLeft tz now end Hours = max 0 \<lceil>of_int (end - now) / (3600000 :: real)\<rceil>"
    using ceiling_of_clamped [of 3600000 "end - now"]
    by (simp add: calculateTimeLeft_def Math_ceil_def)
  have s: "calculateTimeLeft tz now end Seconds = max 0 \<lceil>of_int (end - now) / (1000 :: real)\<rceil>"
    using ceiling_of_clamped [of 1000 "end - now"]
    by (simp add: calculateTimeLeft_def Math_ceil_def)
  have d: "0 \<le> calculateTimeLeft tz now end Days"
    by (simp add: calculateTimeLeft_def calculateDateDiffInDays_def Let_def)
  have n: "0 \<le> calculateTimeLeft tz now end unit"
    using h s d by (cases unit) simp_all
  have p: "now < end \<Longrightarrow>
      1 \<le> calculateTimeLeft tz now end Hours \<and> 1 \<le> calculateTimeLeft tz now end Seconds"
    using ceiling_positive [of 3600000 "end - now"] ceiling_positive [of 1000 "end - now"]
    unfolding h s by simp
  show ?thesis
    using h s n p by blast
qed

text \<open>
  Seven milliseconds before the end one hour and one second are left; 7200001
  milliseconds are three hours; after the end nothing is left.
\<close>

theorem remaining_hours_seconds_witness:
  "calculateTimeLeft (fixedZone 0) 0 7 Hours = 1
   \<and> calculateTimeLeft (fixedZone 0) 0 7 Seconds = 1
   \<and> calculateTimeLeft (fixedZone 0) 0 7200001 Hours = 3
   \<and> calculateTimeLeft (fixedZone 0) 5000 1 Seconds = 0"
  using remaining_hours_seconds [of "fixedZone 0" 0 7 Hours]
    remaining_hours_seconds [of "fixedZone 0" 0 7200001 Hours]
    remaining_hours_seconds [of "fixedZone 0" 5000 1 Hours]
  by simp

text \<open>
  Claim C9. The school-year entry of the dashboard ends before it starts.
  \<open>normalizeRange\<close> swaps the bounds when the end is at or before the start and leaves
  them otherwise, so its result is ordered; the percentage and the days left of a card
  are computed from the normalized range, and are the same for an entry and for the entry
  with its bounds swapped.
\<close>

theorem dashboard_normalizes_inverted_ranges:
  "zoneBounded tz \<Longrightarrow>
     pi_id (items_dashboard tz ! 1) = ''school-year''
     \<and> pi_end (items_dashboard tz ! 1) < pi_start (items_dashboard tz ! 1)
     \<and> normalizeRange start end =
         (if end \<le> start then \<lparr>range_start = end, range_end = start\<rparr>
          else \<lparr>range_start = start, range_end = end\<rparr>)
     \<and> range_start (normalizeRange start end) \<le> range_end (normalizeRange start end)
     \<and> card_percent (ProgressBar item now) =
         calculateProgress now (range_start (normalizeRange (pi_start item) (pi_end item)))
           (range_end (normalizeRange (pi_start item) (pi_end item)))
     \<and> card_daysLeft (ProgressBar item now) =
         max 0 \<lceil>of_int (range_end (normalizeRange (pi_start item) (pi_end item)) - now)
                    / (86400000 :: real)\<rceil>
     \<and> card_percent (ProgressBar (item\<lparr>pi_start := pi_end item, pi_end := pi_start item\<rparr>) now)
         = card_percent (ProgressBar item now)
     \<and> card_daysLeft (ProgressBar (item\<lparr>pi_start := pi_end item, pi_end := pi_start item\<rparr>) now)
         = card_daysLeft (ProgressBar item now)"
proof -
  assume z: "zoneBounded tz"
  have i: "pi_id (items_dashboard tz ! 1) = ''school-year''"
    by (simp add: items_dashboard_def)
  have "new_Date tz 2025 5 24 0 0 < new_Date tz 2025 8 2 0 0"
    unfolding new_Date_values
    using zoneBoundedD [OF z, of 1750723200000 False] zoneBoundedD [OF z, of 1756771200000 False]
    by linarith
  then have o: "pi_end (items_dashboard tz ! 1) < pi_start (items_dashboard tz ! 1)"
    by (simp add: items_dashboard_def)
  have n: "normalizeRange start end =
         (if end \<le> start then \<lparr>range_start = end, range_end = start\<rparr>
          else \<lparr>range_start = start, range_end = end\<rparr>)"
    by (simp add: normalizeRange_def)
  have s: "card_percent (ProgressBar (item\<lparr>pi_start := pi_end item, pi_end := pi_start item\<rparr>) now)
         = card_percent (ProgressBar item now)"
    by (simp add: ProgressBar_percent normalizeRange_swap [of "pi_start item"])
  have d: "card_daysLeft (ProgressBar (item\<lparr>pi_start := pi_end item, pi_end := pi_start item\<rparr>) now)
         = card_daysLeft (ProgressBar item now)"
    by (simp add: ProgressBar_daysLeft normalizeRange_swap [of "pi_start item"])
  show ?thesis
    using i o n s d normalizeRange_ordered [of start "end"] ProgressBar_percent [of item now]
      ProgressBar_daysLeft [of item now]
    by blast
qed

text \<open>
  In a zone without offset the school-year entry runs from 1756771200000 back to
  1750723200000; normalized, its midpoint shows 50 percent.
\<close>

theorem dashboard_normalizes_inverted_ranges_witness:
  "zoneBounded (fixedZone 0)
   \<and> pi_end (items_dashboard (fixedZone 0) ! 1) = 1750723200000
   \<and> pi_start (items_dashboard (fixedZone 0) ! 1) = 1756771200000
   \<and> normalizeRange 1756771200000 1750723200000
       = \<lparr>range_start = 1750723200000, range_end = 1756771200000\<rparr>
   \<and> card_percent (ProgressBar (items_dashboard (fixedZone 0) ! 1) 1753747200000) = Some 50"
proof -
  have z: "zoneBounded (fixedZone 0)"
    by (simp add: zoneBounded_def fixedZone_def msPerDay_def)
  show ?thesis
    using z dashboard_normalizes_inverted_ranges
      [OF z, of 1756771200000 1750723200000 "items_dashboard (fixedZone 0) ! 1" 1753747200000]
    by (simp add: items_dashboard_def new_Date_values fixedZone_def percent_examples)
qed

text \<open>
  Claim C10. For each of the three targets of the share page and for every instant,
  \<open>resolveRange\<close> returns a range whose start is strictly before its end, whatever the
  host's time zone (its offsets being less than a day).
\<close>

theorem share_ranges_well_ordered:
  "zoneBounded tz \<Longrightarrow> target = ''semester'' \<or> target = ''year'' \<or> target = ''school'' \<Longrightarrow>
     (\<exists>it s e. items tz target = Some (Registered it)
        \<and> resolveRange now (Registered it) = (Some s, Some e) \<and> s < e)"
proof -
  assume z: "zoneBounded tz" and t: "target = ''semester'' \<or> target = ''year'' \<or> target = ''school''"
  note b = zoneBoundedD [OF z, of 1756771200000 False] zoneBoundedD [OF z, of 1770032700000 False]
    zoneBoundedD [OF z, of 1782259200000 False] zoneBoundedD [OF z, of 1693872000000 False]
    zoneBoundedD [OF z, of 1813881600000 False]
  have a: "new_Date tz 2025 8 2 0 0 < new_Date tz 2026 1 2 11 45"
    unfolding new_Date_values using b by linarith
  have c: "new_Date tz 2026 1 2 11 45 < new_Date tz 2026 5 24 0 0"
    unfolding new_Date_values using b by linarith
  have d: "new_Date tz 2025 8 2 0 0 < new_Date tz 2026 5 24 0 0"
    using a c by linarith
  have e: "new_Date tz 2023 8 5 0 0 < new_Date tz 2027 5 25 0 0"
    unfolding new_Date_values using b by linarith
  from t consider "target = ''semester''" | "target = ''year''" | "target = ''school''"
    by blast
  then show ?thesis
  proof cases
    case 1
    then show ?thesis
      using a c by (simp add: items_def semester_def semester_getRange_def Let_def)
  next
    case 2
    then show ?thesis
      using d by (simp add: items_def year_def)
  next
    case 3
    then show ?thesis
      using e by (simp add: items_def school_def)
  qed
qed

text \<open>
  The semester and the school year in a zone without offset.
\<close>

theorem share_ranges_well_ordered_witness:
  "zoneBounded (fixedZone 0)
   \<and> (\<exists>it s e. items (fixedZone 0) ''semester'' = Some (Registered it)
        \<and> resolveRange 0 (Registered it) = (Some s, Some e) \<and> s < e)
   \<and> (\<exists>it s e. items (fixedZone 0) ''year'' = Some (Registered it)
        \<and> resolveRange 0 (Registered it) = (Some s, Some e) \<and> s < e)"
proof -
  have z: "zoneBounded (fixedZone 0)"
    by (simp add: zoneBounded_def fixedZone_def msPerDay_def)
  show ?thesis
    using z share_ranges_well_ordered [OF z, of "''semester''" 0]
      share_ranges_well_ordered [OF z, of "''year''" 0]
    by simp
qed

end
